theory Spec2Isabelle
  imports Main "HOL-Library.Word"
begin

section \<open>Bytes and protocol constants\<close>

text \<open>
  \<open>QByteArray\<close> and \<open>AppendBuffer\<close> (a \<open>QByteArray\<close> with \<open>uint8_t\<close> appends) are
  lists of 8-bit words. The header \<open>AbstractTelnet.h\<close> with the \<open>TN_\<close>, \<open>OPT_\<close> and
  \<open>TNSB_\<close> constants is not part of the sources at hand; the values are those of the
  specification (section 3 and 4.1) and, for \<open>TN_AYT\<close> and the subnegotiation verbs, of
  RFC 854, RFC 1091 and RFC 2066, which the specification names as the wire format.
\<close>

type_synonym byte = "8 word"
type_synonym bytes = "byte list"

abbreviation TN_SE :: byte where "TN_SE \<equiv> 240"
abbreviation TN_AYT :: byte where "TN_AYT \<equiv> 246"
abbreviation TN_GA :: byte where "TN_GA \<equiv> 249"
abbreviation TN_SB :: byte where "TN_SB \<equiv> 250"
abbreviation TN_WILL :: byte where "TN_WILL \<equiv> 251"
abbreviation TN_WONT :: byte where "TN_WONT \<equiv> 252"
abbreviation TN_DO :: byte where "TN_DO \<equiv> 253"
abbreviation TN_DONT :: byte where "TN_DONT \<equiv> 254"
abbreviation TN_IAC :: byte where "TN_IAC \<equiv> 255"

abbreviation OPT_ECHO :: byte where "OPT_ECHO \<equiv> 1"
abbreviation OPT_SUPPRESS_GA :: byte where "OPT_SUPPRESS_GA \<equiv> 3"
abbreviation OPT_STATUS :: byte where "OPT_STATUS \<equiv> 5"
abbreviation OPT_TIMING_MARK :: byte where "OPT_TIMING_MARK \<equiv> 6"
abbreviation OPT_TERMINAL_TYPE :: byte where "OPT_TERMINAL_TYPE \<equiv> 24"
abbreviation OPT_NAWS :: byte where "OPT_NAWS \<equiv> 31"
abbreviation OPT_CHARSET :: byte where "OPT_CHARSET \<equiv> 42"
abbreviation OPT_COMPRESS2 :: byte where "OPT_COMPRESS2 \<equiv> 86"
abbreviation OPT_GMCP :: byte where "OPT_GMCP \<equiv> 201"

abbreviation TNSB_IS :: byte where "TNSB_IS \<equiv> 0"
abbreviation TNSB_SEND :: byte where "TNSB_SEND \<equiv> 1"
abbreviation TNSB_REQUEST :: byte where "TNSB_REQUEST \<equiv> 1"
abbreviation TNSB_ACCEPTED :: byte where "TNSB_ACCEPTED \<equiv> 2"
abbreviation TNSB_REJECTED :: byte where "TNSB_REJECTED \<equiv> 3"
abbreviation TNSB_TTABLE_IS :: byte where "TNSB_TTABLE_IS \<equiv> 4"

text \<open>\<open>NUM_OPTS\<close>: the option tables have one entry per option code (specification, section 3).\<close>

abbreviation NUM_OPTS :: nat where "NUM_OPTS \<equiv> 256"

text \<open>\<open>DEFAULT_GMCP_MODULE_VERSION\<close>: the version of a module that is not enabled.\<close>

definition DEFAULT_GMCP_MODULE_VERSION :: nat where
  "DEFAULT_GMCP_MODULE_VERSION = 0"

section \<open>TelnetFormatter\<close>

text \<open>
  \<open>TelnetFormatter\<close> is an \<open>AppendBuffer\<close> with appending methods; each method is a
  function from the buffer before to the buffer after.
\<close>

definition addRaw :: "byte \<Rightarrow> bytes \<Rightarrow> bytes" where
  "addRaw b s = s @ [b]"

definition addEscaped :: "byte \<Rightarrow> bytes \<Rightarrow> bytes" where
  "addEscaped b s = (let s1 = addRaw b s in if b = TN_IAC then addRaw b s1 else s1)"

definition addTwoByteEscaped :: "16 word \<Rightarrow> bytes \<Rightarrow> bytes" where
  "addTwoByteEscaped n s = addEscaped (ucast n) (addEscaped (ucast (drop_bit 8 n)) s)"

text \<open>\<open>std::clamp(n, lo, hi)\<close>.\<close>

definition clamp :: "int \<Rightarrow> int \<Rightarrow> int \<Rightarrow> int" where
  "clamp n lo hi = (if n < lo then lo else if hi < n then hi else n)"

definition addClampedTwoByteEscaped :: "int \<Rightarrow> bytes \<Rightarrow> bytes" where
  "addClampedTwoByteEscaped n s = addTwoByteEscaped (word_of_int (clamp n 0 65535)) s"

fun addEscapedBytes :: "bytes \<Rightarrow> bytes \<Rightarrow> bytes" where
  "addEscapedBytes [] s = s"
| "addEscapedBytes (c # cs) s = addEscapedBytes cs (addEscaped c s)"

definition addCommand :: "byte \<Rightarrow> bytes \<Rightarrow> bytes" where
  "addCommand cmd s = addRaw cmd (addRaw TN_IAC s)"

definition addSubnegBegin :: "byte \<Rightarrow> bytes \<Rightarrow> bytes" where
  "addSubnegBegin opt s = addRaw opt (addCommand TN_SB s)"

definition addSubnegEnd :: "bytes \<Rightarrow> bytes" where
  "addSubnegEnd s = addCommand TN_SE s"

fun containsIAC :: "bytes \<Rightarrow> bool" where
  "containsIAC [] = False"
| "containsIAC (c # cs) = (if c = TN_IAC then True else containsIAC cs)"

section \<open>The engine state\<close>

datatype TelnetStateEnum = NORMAL | IAC | COMMAND | SUBNEG | SUBNEG_IAC | SUBNEG_COMMAND

text \<open>
  The engine talks to its host through virtual functions that \<open>AbstractTelnet.h\<close>
  declares and subclasses implement (\<open>sendRawData\<close>, \<open>sendToMapper\<close>, \<open>receiveEchoMode\<close>,
  \<open>receiveTerminalType\<close>, \<open>receiveWindowSize\<close>, \<open>receiveGmcpMessage\<close>,
  \<open>onGmcpEnabled\<close>). A call of one of them is an event; the engine state carries the
  events in the order of the calls. \<open>'g\<close> is the type of a parsed GMCP message.
\<close>

datatype 'g event =
    SendRawData bytes
  | SendToMapper bytes bool
  | ReceiveEchoMode bool
  | ReceiveTerminalType bytes
  | ReceiveWindowSize "16 word" "16 word"
  | ReceiveGmcpMessage 'g
  | OnGmcpEnabled

text \<open>
  An exception, \<open>abort()\<close> and a failing \<open>assert\<close> end the running call. What the call
  has written to the engine before stays written, so both outcomes carry the state.
  \<open>std::runtime_error\<close> is built from a \<open>const char *\<close>, which may be null: \<open>None\<close>.
  Building it from a null pointer is undefined in C++ (libstdc++ throws a
  \<open>std::logic_error\<close> out of the string constructor); the call ends there all the same,
  with \<open>NullMessage\<close> and no message for the host.
\<close>

datatype error = RuntimeError string | NullMessage | Aborted | AssertFailed

fun runtime_error :: "string option \<Rightarrow> error" where
  "runtime_error (Some msg) = RuntimeError msg"
| "runtime_error None = NullMessage"

datatype ('r, 's) outcome = Return 'r 's | Throw error 's

text \<open>
  Modelled from the spec: \<open>TextCodec\<close> (\<open>TextCodec.h\<close> is absent): the encodings the
  engine supports, by name, and the current one. \<open>supports\<close> looks the name up,
  \<open>setEncodingForName\<close> makes it the current encoding.
\<close>

record TextCodec =
  supportedEncodings :: "bytes list"
  encoding :: bytes

definition supports :: "TextCodec \<Rightarrow> bytes \<Rightarrow> bool" where
  "supports codec name = (name \<in> set (supportedEncodings codec))"

definition setEncodingForName :: "bytes \<Rightarrow> TextCodec \<Rightarrow> TextCodec" where
  "setEncodingForName name codec = codec\<lparr>encoding := name\<rparr>"

text \<open>
  Modelled from the spec: \<open>GmcpModule\<close> (its header is absent): a dotted name with an
  optional version. A module is given by what its accessors return; \<open>'t\<close> is the
  enumeration \<open>GmcpModuleTypeEnum\<close> of module types, supplied by the host.
\<close>

record 't GmcpModule =
  normalizedName :: string
  hasVersion :: bool
  getVersion :: nat
  isSupported :: bool
  getType :: 't

record ('z, 't, 'g) AbstractTelnet =
  myOptionState :: "byte \<Rightarrow> bool"
  hisOptionState :: "byte \<Rightarrow> bool"
  announcedState :: "byte \<Rightarrow> bool"
  heAnnouncedState :: "byte \<Rightarrow> bool"
  m_defaultTermType :: bytes
  termType :: bytes
  state :: TelnetStateEnum
  commandBuffer :: bytes
  subnegBuffer :: bytes
  sentBytes :: int
  recvdGA :: bool
  recvdCompress :: bool
  inflateTelnet :: bool
  debug :: bool
  textCodec :: TextCodec
  current_x :: int
  current_y :: int
  gmcp_supported :: "'t \<Rightarrow> nat"
  gmcp_modules :: "string \<rightharpoonup> 't GmcpModule"
  stream :: 'z
  events :: "'g event list"

section \<open>Sending\<close>

definition sendRawData ::
  "bytes \<Rightarrow> ('z, 't, 'g) AbstractTelnet \<Rightarrow> ('z, 't, 'g) AbstractTelnet" where
  "sendRawData data s = s\<lparr>events := events s @ [SendRawData data]\<rparr>"

definition submitOverTelnet ::
  "bytes \<Rightarrow> bool \<Rightarrow> ('z, 't, 'g) AbstractTelnet \<Rightarrow> ('z, 't, 'g) AbstractTelnet" where
  "submitOverTelnet data goAhead s =
     (let outdata = data;
          outdata = (if containsIAC outdata then addEscapedBytes outdata [] else outdata);
          outdata = (if goAhead \<and> \<not> hisOptionState s OPT_SUPPRESS_GA
                     then outdata @ [TN_IAC] @ [TN_GA] else outdata)
      in sendRawData outdata s)"

definition sendWindowSizeChanged ::
  "int \<Rightarrow> int \<Rightarrow> ('z, 't, 'g) AbstractTelnet \<Rightarrow> ('z, 't, 'g) AbstractTelnet" where
  "sendWindowSizeChanged x y s =
     sendRawData
       (addSubnegEnd (addClampedTwoByteEscaped y (addClampedTwoByteEscaped x
          (addSubnegBegin OPT_NAWS [])))) s"

definition sendTelnetOption ::
  "byte \<Rightarrow> byte \<Rightarrow> ('z, 't, 'g) AbstractTelnet \<Rightarrow> ('z, 't, 'g) AbstractTelnet" where
  "sendTelnetOption type option s = sendRawData ([TN_IAC] @ [type] @ [option]) s"

definition requestTelnetOption ::
  "byte \<Rightarrow> byte \<Rightarrow> ('z, 't, 'g) AbstractTelnet \<Rightarrow> ('z, 't, 'g) AbstractTelnet" where
  "requestTelnetOption type option s =
     sendTelnetOption type option
       (s\<lparr>myOptionState := (myOptionState s)(option := True),
          announcedState := (announcedState s)(option := True)\<rparr>)"

text \<open>The delimiter of \<open>sendCharsetRequest\<close> is the string \<open>";"\<close>.\<close>

abbreviation delimeter :: bytes where "delimeter \<equiv> [59]"

fun charsetRequestBody :: "bytes list \<Rightarrow> bytes \<Rightarrow> bytes" where
  "charsetRequestBody [] s = s"
| "charsetRequestBody (characterSet # rest) s =
     charsetRequestBody rest (addEscapedBytes characterSet (addEscapedBytes delimeter s))"

definition sendCharsetRequest ::
  "bytes list \<Rightarrow> ('z, 't, 'g) AbstractTelnet \<Rightarrow> ('z, 't, 'g) AbstractTelnet" where
  "sendCharsetRequest myCharacterSets s =
     sendRawData
       (addSubnegEnd (charsetRequestBody myCharacterSets
          (addRaw TNSB_REQUEST (addSubnegBegin OPT_CHARSET [])))) s"

definition isGmcpModuleEnabled :: "'t \<Rightarrow> ('z, 't, 'g) AbstractTelnet \<Rightarrow> bool" where
  "isGmcpModuleEnabled name s =
     (if \<not> myOptionState s OPT_GMCP then False
      else gmcp_supported s name \<noteq> DEFAULT_GMCP_MODULE_VERSION)"

text \<open>\<open>sendGmcpMessage\<close> takes the raw bytes \<open>msg.toRawBytes()\<close> of the message.\<close>

definition sendGmcpMessage ::
  "bytes \<Rightarrow> ('z, 't, 'g) AbstractTelnet \<Rightarrow> ('z, 't, 'g) AbstractTelnet" where
  "sendGmcpMessage payload s =
     sendRawData (addSubnegEnd (addEscapedBytes payload (addSubnegBegin OPT_GMCP []))) s"

definition sendTerminalType ::
  "bytes \<Rightarrow> ('z, 't, 'g) AbstractTelnet \<Rightarrow> ('z, 't, 'g) AbstractTelnet" where
  "sendTerminalType terminalType s =
     sendRawData
       (addSubnegEnd (addEscapedBytes terminalType (addEscaped TNSB_IS
          (addSubnegBegin OPT_TERMINAL_TYPE [])))) s"

definition sendCharsetRejected ::
  "('z, 't, 'g) AbstractTelnet \<Rightarrow> ('z, 't, 'g) AbstractTelnet" where
  "sendCharsetRejected s =
     sendRawData (addSubnegEnd (addRaw TNSB_REJECTED (addSubnegBegin OPT_CHARSET []))) s"

definition sendCharsetAccepted ::
  "bytes \<Rightarrow> ('z, 't, 'g) AbstractTelnet \<Rightarrow> ('z, 't, 'g) AbstractTelnet" where
  "sendCharsetAccepted characterSet s =
     sendRawData
       (addSubnegEnd (addEscapedBytes characterSet (addRaw TNSB_ACCEPTED
          (addSubnegBegin OPT_CHARSET [])))) s"

text \<open>The body of the loop of \<open>sendOptionStatus\<close>, for option \<open>i\<close>.\<close>

definition optionStatusEntry ::
  "('z, 't, 'g) AbstractTelnet \<Rightarrow> bytes \<Rightarrow> nat \<Rightarrow> bytes" where
  "optionStatusEntry s buf i =
     (let buf = (if myOptionState s (of_nat i) then buf @ [TN_WILL] @ [of_nat i] else buf);
          buf = (if hisOptionState s (of_nat i) then buf @ [TN_DO] @ [of_nat i] else buf)
      in buf)"

definition sendOptionStatus ::
  "('z, 't, 'g) AbstractTelnet \<Rightarrow> ('z, 't, 'g) AbstractTelnet" where
  "sendOptionStatus s =
     sendRawData
       (foldl (optionStatusEntry s) ([TN_IAC] @ [TN_SB] @ [OPT_STATUS] @ [TNSB_IS]) [0..<NUM_OPTS]
          @ [TN_IAC] @ [TN_SE]) s"

text \<open>The bytes of the string \<open>"I'm here! Please be more patient!\r\n"\<close>.\<close>

definition areYouThereText :: bytes where
  "areYouThereText =
     [73, 39, 109, 32, 104, 101, 114, 101, 33, 32, 80, 108, 101, 97, 115, 101, 32, 98, 101,
      32, 109, 111, 114, 101, 32, 112, 97, 116, 105, 101, 110, 116, 33, 13, 10]"

definition sendAreYouThere ::
  "('z, 't, 'g) AbstractTelnet \<Rightarrow> ('z, 't, 'g) AbstractTelnet" where
  "sendAreYouThere s = sendRawData areYouThereText s"

definition sendTerminalTypeRequest ::
  "('z, 't, 'g) AbstractTelnet \<Rightarrow> ('z, 't, 'g) AbstractTelnet" where
  "sendTerminalTypeRequest s =
     sendRawData (addSubnegEnd (addEscaped TNSB_SEND (addSubnegBegin OPT_TERMINAL_TYPE []))) s"

section \<open>GMCP modules\<close>

definition resetGmcpModules ::
  "('z, 't, 'g) AbstractTelnet \<Rightarrow> ('z, 't, 'g) AbstractTelnet" where
  "resetGmcpModules s =
     s\<lparr>gmcp_supported := (\<lambda>_. DEFAULT_GMCP_MODULE_VERSION), gmcp_modules := Map.empty\<rparr>"

text \<open>
  \<open>gmcp.modules\<close> is a set of modules compared by their full name (specification,
  section 3): a map from the name to the module. \<open>insert\<close> keeps a module that is
  already there, \<open>erase\<close> removes the module of that name.
\<close>

definition receiveGmcpModule ::
  "'t GmcpModule \<Rightarrow> bool \<Rightarrow> ('z, 't, 'g) AbstractTelnet
     \<Rightarrow> (unit, ('z, 't, 'g) AbstractTelnet) outcome" where
  "receiveGmcpModule module enabled s =
     (if enabled then
        (if \<not> hasVersion module then Throw (RuntimeError ''missing version'') s
         else
           (let s1 = s\<lparr>gmcp_modules :=
                  (if normalizedName module \<in> dom (gmcp_modules s) then gmcp_modules s
                   else (gmcp_modules s)(normalizedName module \<mapsto> module))\<rparr>;
                s2 = (if isSupported module
                      then s1\<lparr>gmcp_supported :=
                             (gmcp_supported s1)(getType module := getVersion module)\<rparr>
                      else s1)
            in Return () s2))
      else
        (let s1 = s\<lparr>gmcp_modules := (gmcp_modules s)(normalizedName module := None)\<rparr>;
             s2 = (if isSupported module
                   then s1\<lparr>gmcp_supported :=
                          (gmcp_supported s1)(getType module := DEFAULT_GMCP_MODULE_VERSION)\<rparr>
                   else s1)
         in Return () s2))"

section \<open>Host hooks\<close>

definition sendToMapper ::
  "bytes \<Rightarrow> bool \<Rightarrow> ('z, 't, 'g) AbstractTelnet \<Rightarrow> ('z, 't, 'g) AbstractTelnet" where
  "sendToMapper data goAhead s = s\<lparr>events := events s @ [SendToMapper data goAhead]\<rparr>"

definition receiveEchoMode ::
  "bool \<Rightarrow> ('z, 't, 'g) AbstractTelnet \<Rightarrow> ('z, 't, 'g) AbstractTelnet" where
  "receiveEchoMode b s = s\<lparr>events := events s @ [ReceiveEchoMode b]\<rparr>"

definition receiveTerminalType ::
  "bytes \<Rightarrow> ('z, 't, 'g) AbstractTelnet \<Rightarrow> ('z, 't, 'g) AbstractTelnet" where
  "receiveTerminalType data s = s\<lparr>events := events s @ [ReceiveTerminalType data]\<rparr>"

definition receiveWindowSize ::
  "16 word \<Rightarrow> 16 word \<Rightarrow> ('z, 't, 'g) AbstractTelnet \<Rightarrow> ('z, 't, 'g) AbstractTelnet" where
  "receiveWindowSize x y s = s\<lparr>events := events s @ [ReceiveWindowSize x y]\<rparr>"

definition receiveGmcpMessage ::
  "'g \<Rightarrow> ('z, 't, 'g) AbstractTelnet \<Rightarrow> ('z, 't, 'g) AbstractTelnet" where
  "receiveGmcpMessage msg s = s\<lparr>events := events s @ [ReceiveGmcpMessage msg]\<rparr>"

definition onGmcpEnabled ::
  "('z, 't, 'g) AbstractTelnet \<Rightarrow> ('z, 't, 'g) AbstractTelnet" where
  "onGmcpEnabled s = s\<lparr>events := events s @ [OnGmcpEnabled]\<rparr>"

section \<open>What the engine is compiled and linked with\<close>

text \<open>
  zlib is an external library and \<open>GmcpMessage\<close> a class of an absent file; the engine
  is parameterised by them. One call \<open>inflate(&stream, Z_SYNC_FLUSH)\<close> with the input
  \<open>next_in\<close> and \<open>CHUNK\<close> bytes of room returns its code, the number of input bytes it
  consumed, the bytes it wrote (the engine reads at most \<open>CHUNK\<close> of them) and the next
  stream; \<open>z_msg\<close> reads \<open>stream.msg\<close>, \<open>None\<close> when it is the null pointer, which is
  how zlib leaves it unless it has found an error in the data. \<open>fromRawBytes\<close> is \<open>None\<close> where
  \<open>GmcpMessage::fromRawBytes\<close> throws. \<open>NO_ZLIB\<close> is the compile-time switch
  \<open>MMAPPER_NO_ZLIB\<close>.
\<close>

record 'z inflate_result =
  ret :: int
  consumed :: nat
  produced :: bytes
  next_stream :: 'z

record ('z, 'g) env =
  NO_ZLIB :: bool
  z_inflate :: "'z \<Rightarrow> bytes \<Rightarrow> 'z inflate_result"
  z_inflateEnd :: "'z \<Rightarrow> 'z"
  z_inflateInit :: "'z \<Rightarrow> int \<times> 'z"
  z_msg :: "'z \<Rightarrow> string option"
  fromRawBytes :: "bytes \<Rightarrow> 'g option"

abbreviation Z_OK :: int where "Z_OK \<equiv> 0"
abbreviation Z_STREAM_END :: int where "Z_STREAM_END \<equiv> 1"
abbreviation Z_NEED_DICT :: int where "Z_NEED_DICT \<equiv> 2"
abbreviation Z_STREAM_ERROR :: int where "Z_STREAM_ERROR \<equiv> - 2"
abbreviation Z_DATA_ERROR :: int where "Z_DATA_ERROR \<equiv> - 3"
abbreviation Z_MEM_ERROR :: int where "Z_MEM_ERROR \<equiv> - 4"

abbreviation CHUNK :: nat where "CHUNK \<equiv> 1024"

section \<open>processTelnetCommand\<close>

text \<open>The options the engine answers with DO (first set) and with WILL (second set).\<close>

definition supportedByWill :: "('z, 'g) env \<Rightarrow> byte \<Rightarrow> bool" where
  "supportedByWill env option =
     ((option = OPT_SUPPRESS_GA) \<or> (option = OPT_STATUS)
      \<or> (option = OPT_TERMINAL_TYPE) \<or> (option = OPT_NAWS)
      \<or> (option = OPT_ECHO) \<or> (option = OPT_CHARSET)
      \<or> (option = OPT_COMPRESS2 \<and> \<not> NO_ZLIB env) \<or> (option = OPT_GMCP))"

definition supportedByDo :: "byte \<Rightarrow> bool" where
  "supportedByDo option =
     ((option = OPT_SUPPRESS_GA) \<or> (option = OPT_STATUS)
      \<or> (option = OPT_TERMINAL_TYPE) \<or> (option = OPT_NAWS) \<or> (option = OPT_ECHO)
      \<or> (option = OPT_CHARSET) \<or> (option = OPT_GMCP))"

text \<open>\<open>case TN_WILL\<close>.\<close>

definition commandWill ::
  "('z, 'g) env \<Rightarrow> byte \<Rightarrow> ('z, 't, 'g) AbstractTelnet \<Rightarrow> ('z, 't, 'g) AbstractTelnet" where
  "commandWill env option s =
     (let s1 = s\<lparr>heAnnouncedState := (heAnnouncedState s)(option := True)\<rparr> in
      if \<not> hisOptionState s1 option then
        (if \<not> myOptionState s1 option then
           (if supportedByWill env option then
              (let s2 = sendTelnetOption TN_DO option s1;
                   s3 = s2\<lparr>hisOptionState := (hisOptionState s2)(option := True)\<rparr>
               in if option = OPT_ECHO then receiveEchoMode False s3 else s3)
            else
              (let s2 = sendTelnetOption TN_DONT option s1
               in s2\<lparr>hisOptionState := (hisOptionState s2)(option := False)\<rparr>))
         else if myOptionState s1 option \<and> option = OPT_TERMINAL_TYPE
           then sendTerminalTypeRequest s1
         else s1)
      else s1)"

text \<open>\<open>case TN_WONT\<close>.\<close>

definition commandWont ::
  "byte \<Rightarrow> ('z, 't, 'g) AbstractTelnet \<Rightarrow> ('z, 't, 'g) AbstractTelnet" where
  "commandWont option s =
     (let s1 =
        (if \<not> myOptionState s option then
           (if hisOptionState s option \<or> (\<not> heAnnouncedState s option) then
              (let s2 = sendTelnetOption TN_DONT option s;
                   s3 = s2\<lparr>hisOptionState := (hisOptionState s2)(option := False)\<rparr>
               in if option = OPT_ECHO then receiveEchoMode True s3 else s3)
            else s)
         else s)
      in s1\<lparr>heAnnouncedState := (heAnnouncedState s1)(option := True)\<rparr>)"

text \<open>
  \<open>case TN_DO\<close>: first the reply (the \<open>if\<close> chain on \<open>OPT_TIMING_MARK\<close> and
  \<open>myOptionState[option]\<close>), then what follows it (the \<open>if\<close> chain on the option that is
  now enabled).
\<close>

definition doReply ::
  "byte \<Rightarrow> ('z, 't, 'g) AbstractTelnet \<Rightarrow> ('z, 't, 'g) AbstractTelnet" where
  "doReply option s =
     (if option = OPT_TIMING_MARK then sendTelnetOption TN_WILL option s
      else if \<not> myOptionState s option then
        (if supportedByDo option then
           (let s2 = sendTelnetOption TN_WILL option s
            in s2\<lparr>myOptionState := (myOptionState s2)(option := True),
                  announcedState := (announcedState s2)(option := True)\<rparr>)
         else
           (let s2 = sendTelnetOption TN_WONT option s
            in s2\<lparr>myOptionState := (myOptionState s2)(option := False),
                  announcedState := (announcedState s2)(option := True)\<rparr>))
      else s)"

definition doFollowUp ::
  "('z, 'g) env \<Rightarrow> byte \<Rightarrow> ('z, 't, 'g) AbstractTelnet \<Rightarrow> ('z, 't, 'g) AbstractTelnet" where
  "doFollowUp env option s1 =
     (if myOptionState s1 OPT_NAWS \<and> option = OPT_NAWS
        then sendWindowSizeChanged (current_x s1) (current_y s1) s1
      else if myOptionState s1 OPT_CHARSET \<and> option = OPT_CHARSET
        then sendCharsetRequest (supportedEncodings (textCodec s1)) s1
      else if myOptionState s1 OPT_COMPRESS2 \<and> option = OPT_COMPRESS2 \<and> \<not> NO_ZLIB env
        then s1
      else if myOptionState s1 OPT_GMCP \<and> option = OPT_GMCP
        then onGmcpEnabled s1
      else s1)"

definition commandDo ::
  "('z, 'g) env \<Rightarrow> byte \<Rightarrow> ('z, 't, 'g) AbstractTelnet \<Rightarrow> ('z, 't, 'g) AbstractTelnet" where
  "commandDo env option s = doFollowUp env option (doReply option s)"

text \<open>\<open>case TN_DONT\<close>.\<close>

definition commandDont ::
  "byte \<Rightarrow> ('z, 't, 'g) AbstractTelnet \<Rightarrow> ('z, 't, 'g) AbstractTelnet" where
  "commandDont option s =
     (let s1 =
        (if myOptionState s option \<or> (\<not> announcedState s option) then
           (let s2 = sendTelnetOption TN_WONT option s
            in s2\<lparr>announcedState := (announcedState s2)(option := True)\<rparr>)
         else s)
      in s1\<lparr>myOptionState := (myOptionState s1)(option := False)\<rparr>)"

text \<open>
  The command buffer holds \<open>IAC\<close>, the command byte \<open>ch\<close> and, for a negotiation, the
  option. A buffer of one byte is ignored (\<open>case 1\<close>), as is one of more than three.
\<close>

definition processTelnetCommand ::
  "('z, 'g) env \<Rightarrow> bytes \<Rightarrow> ('z, 't, 'g) AbstractTelnet
     \<Rightarrow> (unit, ('z, 't, 'g) AbstractTelnet) outcome" where
  "processTelnetCommand env command s =
     (case command of
        [] \<Rightarrow> Throw AssertFailed s
      | [_] \<Rightarrow> Return () s
      | [_, ch] \<Rightarrow>
          Return ()
            (if ch = TN_AYT then sendAreYouThere s
             else if ch = TN_GA then s\<lparr>recvdGA := True\<rparr>
             else s)
      | [_, ch, option] \<Rightarrow>
          Return ()
            (if ch = TN_WILL then commandWill env option s
             else if ch = TN_WONT then commandWont option s
             else if ch = TN_DO then commandDo env option s
             else if ch = TN_DONT then commandDont option s
             else s)
      | _ \<Rightarrow> Return () s)"

section \<open>processTelnetSubnegotiation\<close>

text \<open>
  \<open>payload[i]\<close> of a \<open>QByteArray\<close>. The handler reads \<open>payload[0]\<close> of a payload that
  may be empty and \<open>payload[1]\<close> of a payload that may have one byte: the index is then
  the size of the array, where a \<open>QByteArray\<close> keeps a terminating NUL.
\<close>

definition byteAt :: "bytes \<Rightarrow> nat \<Rightarrow> byte" where
  "byteAt payload i = (if i < length payload then payload ! i else 0)"

text \<open>\<open>QByteArray::split(sep)\<close>: the pieces between the separators, empty ones too.\<close>

fun splitFrom :: "byte \<Rightarrow> bytes \<Rightarrow> bytes \<Rightarrow> bytes list" where
  "splitFrom sep piece [] = [piece]"
| "splitFrom sep piece (c # cs) =
     (if c = sep then piece # splitFrom sep [] cs else splitFrom sep (piece @ [c]) cs)"

definition split_sep :: "byte \<Rightarrow> bytes \<Rightarrow> bytes list" where
  "split_sep sep data = splitFrom sep [] data"

text \<open>
  The loop over the character sets of a CHARSET REQUEST: the first supported one is
  made the encoding and accepted. The result says whether one was accepted.
\<close>

fun charsetRequestLoop ::
  "bytes list \<Rightarrow> ('z, 't, 'g) AbstractTelnet \<Rightarrow> bool \<times> ('z, 't, 'g) AbstractTelnet" where
  "charsetRequestLoop [] s = (False, s)"
| "charsetRequestLoop (characterSet # rest) s =
     (if supports (textCodec s) characterSet then
        (True, sendCharsetAccepted characterSet
                 (s\<lparr>textCodec := setEncodingForName characterSet (textCodec s)\<rparr>))
      else charsetRequestLoop rest s)"

text \<open>\<open>case OPT_CHARSET\<close>, under the guard \<open>myOptionState[OPT_CHARSET]\<close>.\<close>

definition subnegCharset ::
  "bytes \<Rightarrow> ('z, 't, 'g) AbstractTelnet \<Rightarrow> (unit, ('z, 't, 'g) AbstractTelnet) outcome" where
  "subnegCharset payload s =
     (if byteAt payload 1 = TNSB_REQUEST then
        (if length payload \<ge> 4 \<and> byteAt payload 2 \<noteq> 91 then
           (let sep = byteAt payload 2;
                characterSets = split_sep sep (drop 3 payload);
                (accepted, s1) = charsetRequestLoop characterSets s
            in if accepted then Return () s1 else Return () (sendCharsetRejected s1))
         else Return () (sendCharsetRejected s))
      else if byteAt payload 1 = TNSB_ACCEPTED then
        (if length payload > 3
         then Return () (s\<lparr>textCodec := setEncodingForName (drop 2 payload) (textCodec s)\<rparr>)
         else Return () s)
      else if byteAt payload 1 = TNSB_REJECTED then Return () s
      else if byteAt payload 1 = TNSB_TTABLE_IS then Throw Aborted s
      else Return () s)"

definition processTelnetSubnegotiation ::
  "('z, 'g) env \<Rightarrow> bytes \<Rightarrow> ('z, 't, 'g) AbstractTelnet
     \<Rightarrow> (unit, ('z, 't, 'g) AbstractTelnet) outcome" where
  "processTelnetSubnegotiation env payload s =
     (let option = byteAt payload 0 in
      if option = OPT_STATUS then
        (if byteAt payload 1 = TNSB_SEND then Return () (sendOptionStatus s) else Return () s)
      else if option = OPT_TERMINAL_TYPE then
        (if myOptionState s OPT_TERMINAL_TYPE then
           (if byteAt payload 1 = TNSB_SEND then Return () (sendTerminalType (termType s) s)
            else if byteAt payload 1 = TNSB_IS
              then Return () (receiveTerminalType (drop 2 payload) s)
            else Return () s)
         else Return () s)
      else if option = OPT_CHARSET then
        (if myOptionState s OPT_CHARSET then subnegCharset payload s else Return () s)
      else if option = OPT_COMPRESS2 then
        (if NO_ZLIB env then Throw AssertFailed s
         else if hisOptionState s OPT_COMPRESS2 then
           (if debug s \<and> inflateTelnet s then Return () s
            else Return () (s\<lparr>recvdCompress := True\<rparr>))
         else Return () s)
      else if option = OPT_GMCP then
        (if myOptionState s OPT_GMCP then
           (if length payload \<le> 1 then Return () s
            else
              (case fromRawBytes env (drop 1 payload) of
                 Some msg \<Rightarrow> Return () (receiveGmcpMessage msg s)
               | None \<Rightarrow> Return () s))
         else Return () s)
      else if option = OPT_NAWS then
        (if myOptionState s OPT_NAWS then
           (if length payload = 5 then
              (let x1 = byteAt payload 1; x2 = byteAt payload 2;
                   y1 = byteAt payload 3; y2 = byteAt payload 4;
                   x = (push_bit 8 (ucast x1) + ucast x2 :: 16 word);
                   y = (push_bit 8 (ucast y1) + ucast y2 :: 16 word)
               in Return () (receiveWindowSize x y s))
            else Return () s)
         else Return () s)
      else Return () s)"

section \<open>The byte state machine\<close>

text \<open>
  \<open>onReadInternal2\<close> works on the engine and on the clean-data buffer of its caller.
  A command or subnegotiation that throws ends the call where it stands. The switch
  is written once, as \<open>byteFSM\<close>, with the two functions it calls as parameters
  (\<open>pc\<close> for \<open>processTelnetCommand\<close>, \<open>ps\<close> for \<open>processTelnetSubnegotiation\<close>):
  a statement about \<open>byteFSM\<close> for all \<open>pc\<close> and \<open>ps\<close> is a statement about a run that
  calls neither.
\<close>

type_synonym ('z, 't, 'g) handler =
  "bytes \<Rightarrow> ('z, 't, 'g) AbstractTelnet \<Rightarrow> (unit, ('z, 't, 'g) AbstractTelnet) outcome"

definition emitCommand ::
  "('z, 't, 'g) handler \<Rightarrow> ('z, 't, 'g) AbstractTelnet \<Rightarrow> bytes
     \<Rightarrow> (unit, ('z, 't, 'g) AbstractTelnet \<times> bytes) outcome" where
  "emitCommand pc s cleanData =
     (case pc (commandBuffer s) s of
        Throw e s1 \<Rightarrow> Throw e (s1, cleanData)
      | Return _ s1 \<Rightarrow> Return () (s1\<lparr>commandBuffer := []\<rparr>, cleanData))"

definition emitSubneg ::
  "('z, 't, 'g) handler \<Rightarrow> ('z, 't, 'g) AbstractTelnet \<Rightarrow> bytes
     \<Rightarrow> (unit, ('z, 't, 'g) AbstractTelnet \<times> bytes) outcome" where
  "emitSubneg ps s cleanData =
     (case ps (subnegBuffer s) s of
        Throw e s1 \<Rightarrow> Throw e (s1, cleanData)
      | Return _ s1 \<Rightarrow> Return () (s1\<lparr>commandBuffer := [], subnegBuffer := []\<rparr>, cleanData))"

definition byteFSM ::
  "('z, 't, 'g) handler \<Rightarrow> ('z, 't, 'g) handler \<Rightarrow> byte
     \<Rightarrow> ('z, 't, 'g) AbstractTelnet \<times> bytes
     \<Rightarrow> (unit, ('z, 't, 'g) AbstractTelnet \<times> bytes) outcome" where
  "byteFSM pc ps c sc =
     (case sc of (s, cleanData) \<Rightarrow>
      (case state s of
         NORMAL \<Rightarrow>
           (if c = TN_IAC
            then Return () (s\<lparr>state := IAC, commandBuffer := commandBuffer s @ [c]\<rparr>, cleanData)
            else Return () (s, cleanData @ [c]))
       | IAC \<Rightarrow>
           (if c = TN_IAC
            then Return () (s\<lparr>state := NORMAL, commandBuffer := []\<rparr>, cleanData @ [c])
            else if (c = TN_WILL) \<or> (c = TN_WONT) \<or> (c = TN_DO) \<or> (c = TN_DONT)
            then Return ()
                   (s\<lparr>state := COMMAND, commandBuffer := commandBuffer s @ [c]\<rparr>, cleanData)
            else if c = TN_SB
            then Return () (s\<lparr>state := SUBNEG, commandBuffer := []\<rparr>, cleanData)
            else if c = TN_SE
            then Return () (s\<lparr>state := NORMAL, commandBuffer := []\<rparr>, cleanData)
            else emitCommand pc
                   (s\<lparr>state := NORMAL, commandBuffer := commandBuffer s @ [c]\<rparr>) cleanData)
       | COMMAND \<Rightarrow>
           emitCommand pc
             (s\<lparr>state := NORMAL, commandBuffer := commandBuffer s @ [c]\<rparr>) cleanData
       | SUBNEG \<Rightarrow>
           (if c = TN_IAC
            then Return ()
                   (s\<lparr>state := SUBNEG_IAC, commandBuffer := commandBuffer s @ [c]\<rparr>, cleanData)
            else Return () (s\<lparr>subnegBuffer := subnegBuffer s @ [c]\<rparr>, cleanData))
       | SUBNEG_IAC \<Rightarrow>
           (if c = TN_IAC
            then Return ()
                   (s\<lparr>state := SUBNEG, subnegBuffer := subnegBuffer s @ [c],
                      commandBuffer := []\<rparr>, cleanData)
            else if (c = TN_WILL) \<or> (c = TN_WONT) \<or> (c = TN_DO) \<or> (c = TN_DONT)
            then Return ()
                   (s\<lparr>state := SUBNEG_COMMAND, commandBuffer := commandBuffer s @ [c]\<rparr>,
                    cleanData)
            else if c = TN_SE
            then emitSubneg ps (s\<lparr>state := NORMAL\<rparr>) cleanData
            else if c = TN_SB
            then Return ()
                   (s\<lparr>state := NORMAL, commandBuffer := [], subnegBuffer := []\<rparr>, cleanData)
            else emitCommand pc
                   (s\<lparr>state := SUBNEG, commandBuffer := commandBuffer s @ [c]\<rparr>) cleanData)
       | SUBNEG_COMMAND \<Rightarrow>
           emitCommand pc
             (s\<lparr>state := SUBNEG, commandBuffer := commandBuffer s @ [c]\<rparr>) cleanData))"

definition onReadInternal2 ::
  "('z, 'g) env \<Rightarrow> byte \<Rightarrow> ('z, 't, 'g) AbstractTelnet \<times> bytes
     \<Rightarrow> (unit, ('z, 't, 'g) AbstractTelnet \<times> bytes) outcome" where
  "onReadInternal2 env c sc =
     byteFSM (processTelnetCommand env) (processTelnetSubnegotiation env) c sc"

section \<open>Compression\<close>

definition resetCompress ::
  "('z, 't, 'g) AbstractTelnet \<Rightarrow> ('z, 't, 'g) AbstractTelnet" where
  "resetCompress s =
     s\<lparr>inflateTelnet := False, recvdCompress := False,
       hisOptionState := (hisOptionState s)(OPT_COMPRESS2 := False)\<rparr>"

definition initCompress ::
  "('z, 'g) env \<Rightarrow> ('z, 't, 'g) AbstractTelnet
     \<Rightarrow> (unit, ('z, 't, 'g) AbstractTelnet) outcome" where
  "initCompress env s =
     (if NO_ZLIB env then Throw Aborted s
      else
        (let s1 = s\<lparr>inflateTelnet := True\<rparr>;
             (r, z) = z_inflateInit env (stream s1);
             s2 = s1\<lparr>stream := z\<rparr>
         in if r \<noteq> Z_OK then Throw (RuntimeError ''Unable to initialize zlib'') s2
            else Return () s2))"

text \<open>The flush after a byte that has set \<open>recvdGA\<close>, as both read loops have it.\<close>

definition flushOnGA ::
  "('z, 't, 'g) AbstractTelnet \<times> bytes \<Rightarrow> ('z, 't, 'g) AbstractTelnet \<times> bytes" where
  "flushOnGA sc =
     (case sc of (s, cleanData) \<Rightarrow>
        if recvdGA s
        then ((sendToMapper cleanData (recvdGA s) s)\<lparr>recvdGA := False\<rparr>, [])
        else (s, cleanData))"

text \<open>The \<open>for\<close> loop of \<open>onReadInternalInflate\<close> over the bytes of one inflated chunk.\<close>

fun feedInflated ::
  "('z, 'g) env \<Rightarrow> bytes \<Rightarrow> ('z, 't, 'g) AbstractTelnet \<times> bytes
     \<Rightarrow> (unit, ('z, 't, 'g) AbstractTelnet \<times> bytes) outcome" where
  "feedInflated env [] sc = Return () sc"
| "feedInflated env (c # cs) sc =
     (case onReadInternal2 env c sc of
        Throw e sc1 \<Rightarrow> Throw e sc1
      | Return _ sc1 \<Rightarrow> feedInflated env cs (flushOnGA sc1))"

text \<open>
  The \<open>do ... while (stream.avail_out == 0)\<close> loop of \<open>onReadInternalInflate\<close>. Nothing
  in the engine bounds the number of chunks zlib produces, so the loop takes fuel:
  \<open>None\<close> is a loop that has not ended within the fuel. It returns \<open>stream.avail_in\<close>.
\<close>

fun inflateLoop ::
  "nat \<Rightarrow> ('z, 'g) env \<Rightarrow> bytes \<Rightarrow> ('z, 't, 'g) AbstractTelnet \<times> bytes
     \<Rightarrow> (nat, ('z, 't, 'g) AbstractTelnet \<times> bytes) outcome option" where
  "inflateLoop 0 env input sc = None"
| "inflateLoop (Suc n) env input sc =
     (case sc of (s, cleanData) \<Rightarrow>
      (let r = z_inflate env (stream s) input;
           s1 = s\<lparr>stream := next_stream r\<rparr>
       in
         if ret r = Z_STREAM_ERROR then Some (Throw AssertFailed (s1, cleanData))
         else if ret r = Z_NEED_DICT \<or> ret r = Z_DATA_ERROR \<or> ret r = Z_MEM_ERROR
                 \<or> ret r = Z_STREAM_END
         then
           (let s2 = s1\<lparr>stream := z_inflateEnd env (stream s1)\<rparr>;
                s3 = resetCompress s2
            in Some (Throw (runtime_error (z_msg env (stream s3))) (s3, cleanData)))
         else
           (let out = take CHUNK (produced r);
                avail_out = CHUNK - length out;
                input1 = drop (consumed r) input
            in case feedInflated env out (s1, cleanData) of
                 Throw e sc1 \<Rightarrow> Some (Throw e sc1)
               | Return _ sc1 \<Rightarrow>
                   if avail_out = 0 then inflateLoop n env input1 sc1
                   else Some (Return (length input1) sc1))))"

definition onReadInternalInflate ::
  "nat \<Rightarrow> ('z, 'g) env \<Rightarrow> bytes \<Rightarrow> ('z, 't, 'g) AbstractTelnet \<times> bytes
     \<Rightarrow> (nat, ('z, 't, 'g) AbstractTelnet \<times> bytes) outcome option" where
  "onReadInternalInflate n env data sc =
     (if NO_ZLIB env then Some (Throw Aborted sc) else inflateLoop n env data sc)"

section \<open>onReadInternal\<close>

text \<open>
  The \<open>while (pos < data.size())\<close> loop, on the bytes from \<open>pos\<close> on. In inflate mode
  the position moves to where zlib stopped reading, which need not be further on, so
  this loop takes fuel too.
\<close>

fun readLoop ::
  "nat \<Rightarrow> ('z, 'g) env \<Rightarrow> bytes \<Rightarrow> ('z, 't, 'g) AbstractTelnet \<times> bytes
     \<Rightarrow> (unit, ('z, 't, 'g) AbstractTelnet \<times> bytes) outcome option" where
  "readLoop n env [] sc = Some (Return () sc)"
| "readLoop 0 env (c # rest) sc = None"
| "readLoop (Suc n) env (c # rest) sc =
     (case sc of (s, cleanData) \<Rightarrow>
        if inflateTelnet s then
          (case onReadInternalInflate n env (c # rest) sc of
             None \<Rightarrow> None
           | Some (Throw e sc1) \<Rightarrow> Some (Throw e sc1)
           | Some (Return remaining sc1) \<Rightarrow>
               readLoop n env (drop (length (c # rest) - remaining) (c # rest)) sc1)
        else
          (case onReadInternal2 env c sc of
             Throw e sc1 \<Rightarrow> Some (Throw e sc1)
           | Return _ sc1 \<Rightarrow>
               (case sc1 of (s1, cleanData1) \<Rightarrow>
                  if recvdCompress s1 then
                    (case initCompress env s1 of
                       Throw e s2 \<Rightarrow> Some (Throw e (s2, cleanData1))
                     | Return _ s2 \<Rightarrow>
                         readLoop n env rest (s2\<lparr>recvdCompress := False\<rparr>, cleanData1))
                  else readLoop n env rest (flushOnGA sc1))))"

text \<open>
  \<open>onReadInternal\<close>: the clean data is a local buffer, flushed at the end when it is
  not empty. When the loop throws, the exception leaves \<open>onReadInternal\<close> and the
  buffer is gone.
\<close>

definition onReadInternal ::
  "nat \<Rightarrow> ('z, 'g) env \<Rightarrow> bytes \<Rightarrow> ('z, 't, 'g) AbstractTelnet
     \<Rightarrow> (unit, ('z, 't, 'g) AbstractTelnet) outcome option" where
  "onReadInternal n env data s =
     (if data = [] then Some (Return () s)
      else
        (case readLoop n env data (s, []) of
           None \<Rightarrow> None
         | Some (Throw e (s1, cleanData)) \<Rightarrow> Some (Throw e s1)
         | Some (Return _ (s1, cleanData)) \<Rightarrow>
             Some (Return ()
               (if cleanData \<noteq> [] then sendToMapper cleanData (recvdGA s1) s1 else s1))))"

section \<open>reset\<close>

definition reset :: "('z, 't, 'g) AbstractTelnet \<Rightarrow> ('z, 't, 'g) AbstractTelnet" where
  "reset s =
     resetCompress
       ((resetGmcpModules
          (s\<lparr>myOptionState := (\<lambda>_. False), hisOptionState := (\<lambda>_. False),
             announcedState := (\<lambda>_. False), heAnnouncedState := (\<lambda>_. False),
             termType := m_defaultTermType s, state := NORMAL, commandBuffer := []\<rparr>))
        \<lparr>subnegBuffer := [], sentBytes := 0, recvdGA := False\<rparr>)"

section \<open>Running the engine\<close>

text \<open>Feeding a byte sequence to the state machine alone, byte after byte.\<close>

fun feedFSM ::
  "('z, 't, 'g) handler \<Rightarrow> ('z, 't, 'g) handler \<Rightarrow> bytes
     \<Rightarrow> ('z, 't, 'g) AbstractTelnet \<times> bytes
     \<Rightarrow> (unit, ('z, 't, 'g) AbstractTelnet \<times> bytes) outcome" where
  "feedFSM pc ps [] sc = Return () sc"
| "feedFSM pc ps (c # cs) sc =
     (case byteFSM pc ps c sc of
        Throw e sc1 \<Rightarrow> Throw e sc1
      | Return _ sc1 \<Rightarrow> feedFSM pc ps cs sc1)"

text \<open>Several calls of \<open>onReadInternal\<close>, one per chunk, until one throws.\<close>

fun readChunks ::
  "nat \<Rightarrow> ('z, 'g) env \<Rightarrow> bytes list \<Rightarrow> ('z, 't, 'g) AbstractTelnet
     \<Rightarrow> (unit, ('z, 't, 'g) AbstractTelnet) outcome option" where
  "readChunks n env [] s = Some (Return () s)"
| "readChunks n env (data # rest) s =
     (case onReadInternal n env data s of
        None \<Rightarrow> None
      | Some (Throw e s1) \<Rightarrow> Some (Throw e s1)
      | Some (Return _ s1) \<Rightarrow> readChunks n env rest s1)"

text \<open>
  The constructor sets the default terminal type, the codec and the debug flag and
  calls \<open>reset\<close>. The window size and the zlib stream are members that neither sets.
\<close>

definition newTelnet ::
  "TextCodec \<Rightarrow> bool \<Rightarrow> bytes \<Rightarrow> int \<Rightarrow> int \<Rightarrow> 'z \<Rightarrow> ('z, 't, 'g) AbstractTelnet" where
  "newTelnet codec dbg defaultTermType x y z =
     reset
       \<lparr>myOptionState = (\<lambda>_. False), hisOptionState = (\<lambda>_. False),
        announcedState = (\<lambda>_. False), heAnnouncedState = (\<lambda>_. False),
        m_defaultTermType = defaultTermType, termType = [], state = NORMAL,
        commandBuffer = [], subnegBuffer = [], sentBytes = 0, recvdGA = False,
        recvdCompress = False, inflateTelnet = False, debug = dbg, textCodec = codec,
        current_x = x, current_y = y,
        gmcp_supported = (\<lambda>_. DEFAULT_GMCP_MODULE_VERSION),
        gmcp_modules = Map.empty, stream = z, events = []\<rparr>"

section \<open>The specification's words\<close>

text \<open>The escape rule: every \<open>0xFF\<close> is rewritten as \<open>0xFF 0xFF\<close> (section 4.4).\<close>

primrec doubleIAC :: "bytes \<Rightarrow> bytes" where
  "doubleIAC [] = []"
| "doubleIAC (b # bs) = (if b = TN_IAC then [TN_IAC, TN_IAC] else [b]) @ doubleIAC bs"

text \<open>The framing helper: \<open>IAC SB <opt> <payload with IAC doubled> IAC SE\<close> (section 4.4).\<close>

definition subnegFrame :: "byte \<Rightarrow> bytes \<Rightarrow> bytes" where
  "subnegFrame opt params = [TN_IAC, TN_SB, opt] @ doubleIAC params @ [TN_IAC, TN_SE]"

text \<open>
  The transition table of section 4.1: for a state and a byte, the next state and the
  actions of the row. To emit a command is to hand the command buffer to the
  negotiator, which leaves the buffer empty (it never holds more than three bytes); to
  emit a subnegotiation is to hand over the subneg buffer.
\<close>

datatype fsmAction =
  PushCommand | ClearCommand | AppendClean | AppendSubneg | EmitCommand | EmitSubnegotiation
  | ClearSubneg

definition isNegotiation :: "byte \<Rightarrow> bool" where
  "isNegotiation c = (c = TN_WILL \<or> c = TN_WONT \<or> c = TN_DO \<or> c = TN_DONT)"

fun fsmTable :: "TelnetStateEnum \<Rightarrow> byte \<Rightarrow> TelnetStateEnum \<times> fsmAction list" where
  "fsmTable NORMAL c =
     (if c = TN_IAC then (IAC, [PushCommand]) else (NORMAL, [AppendClean]))"
| "fsmTable IAC c =
     (if c = TN_IAC then (NORMAL, [AppendClean, ClearCommand])
      else if isNegotiation c then (COMMAND, [PushCommand])
      else if c = TN_SB then (SUBNEG, [ClearCommand])
      else if c = TN_SE then (NORMAL, [ClearCommand])
      else (NORMAL, [PushCommand, EmitCommand]))"
| "fsmTable COMMAND c = (NORMAL, [PushCommand, EmitCommand])"
| "fsmTable SUBNEG c =
     (if c = TN_IAC then (SUBNEG_IAC, [PushCommand]) else (SUBNEG, [AppendSubneg]))"
| "fsmTable SUBNEG_IAC c =
     (if c = TN_IAC then (SUBNEG, [AppendSubneg, ClearCommand])
      else if isNegotiation c then (SUBNEG_COMMAND, [PushCommand])
      else if c = TN_SE then (NORMAL, [EmitSubnegotiation, ClearCommand, ClearSubneg])
      else if c = TN_SB then (NORMAL, [ClearCommand, ClearSubneg])
      else (SUBNEG, [PushCommand, EmitCommand]))"
| "fsmTable SUBNEG_COMMAND c = (SUBNEG, [PushCommand, EmitCommand])"

fun runAction ::
  "('z, 'g) env \<Rightarrow> byte \<Rightarrow> fsmAction \<Rightarrow> ('z, 't, 'g) AbstractTelnet \<times> bytes
     \<Rightarrow> (unit, ('z, 't, 'g) AbstractTelnet \<times> bytes) outcome" where
  "runAction env c PushCommand (s, clean) =
     Return () (s\<lparr>commandBuffer := commandBuffer s @ [c]\<rparr>, clean)"
| "runAction env c ClearCommand (s, clean) = Return () (s\<lparr>commandBuffer := []\<rparr>, clean)"
| "runAction env c AppendClean (s, clean) = Return () (s, clean @ [c])"
| "runAction env c AppendSubneg (s, clean) =
     Return () (s\<lparr>subnegBuffer := subnegBuffer s @ [c]\<rparr>, clean)"
| "runAction env c EmitCommand (s, clean) =
     (case processTelnetCommand env (commandBuffer s) s of
        Throw e s1 \<Rightarrow> Throw e (s1, clean)
      | Return _ s1 \<Rightarrow> Return () (s1\<lparr>commandBuffer := []\<rparr>, clean))"
| "runAction env c EmitSubnegotiation (s, clean) =
     (case processTelnetSubnegotiation env (subnegBuffer s) s of
        Throw e s1 \<Rightarrow> Throw e (s1, clean)
      | Return _ s1 \<Rightarrow> Return () (s1, clean))"
| "runAction env c ClearSubneg (s, clean) = Return () (s\<lparr>subnegBuffer := []\<rparr>, clean)"

fun runActions ::
  "('z, 'g) env \<Rightarrow> byte \<Rightarrow> fsmAction list \<Rightarrow> ('z, 't, 'g) AbstractTelnet \<times> bytes
     \<Rightarrow> (unit, ('z, 't, 'g) AbstractTelnet \<times> bytes) outcome" where
  "runActions env c [] sc = Return () sc"
| "runActions env c (a # as) sc =
     (case runAction env c a sc of
        Throw e sc1 \<Rightarrow> Throw e sc1
      | Return _ sc1 \<Rightarrow> runActions env c as sc1)"

definition tableStep ::
  "('z, 'g) env \<Rightarrow> byte \<Rightarrow> ('z, 't, 'g) AbstractTelnet \<times> bytes
     \<Rightarrow> (unit, ('z, 't, 'g) AbstractTelnet \<times> bytes) outcome" where
  "tableStep env c sc =
     (case sc of (s, clean) \<Rightarrow>
        runActions env c (snd (fsmTable (state s) c))
          (s\<lparr>state := fst (fsmTable (state s) c)\<rparr>, clean))"

text \<open>
  Between two bytes the buffers are as the table leaves them: the command buffer holds
  the bytes of the command under way, and the subneg buffer is empty outside a
  subnegotiation.
\<close>

definition negotiationBegun :: "bytes \<Rightarrow> bool" where
  "negotiationBegun buf =
     (buf = [TN_IAC, TN_WILL] \<or> buf = [TN_IAC, TN_WONT] \<or> buf = [TN_IAC, TN_DO]
      \<or> buf = [TN_IAC, TN_DONT])"

definition buffersFit :: "('z, 't, 'g) AbstractTelnet \<Rightarrow> bool" where
  "buffersFit s =
     (case state s of
        NORMAL \<Rightarrow> commandBuffer s = [] \<and> subnegBuffer s = []
      | IAC \<Rightarrow> commandBuffer s = [TN_IAC] \<and> subnegBuffer s = []
      | COMMAND \<Rightarrow> negotiationBegun (commandBuffer s) \<and> subnegBuffer s = []
      | SUBNEG \<Rightarrow> commandBuffer s = []
      | SUBNEG_IAC \<Rightarrow> commandBuffer s = [TN_IAC]
      | SUBNEG_COMMAND \<Rightarrow> negotiationBegun (commandBuffer s))"

text \<open>
  The enable side-effect of an option (section 4.2, DO): NAWS sends the window size,
  CHARSET requests the supported encodings, GMCP calls the host's hook.
\<close>

definition enableSideEffect ::
  "byte \<Rightarrow> ('z, 't, 'g) AbstractTelnet \<Rightarrow> ('z, 't, 'g) AbstractTelnet" where
  "enableSideEffect option s =
     (if option = OPT_NAWS then sendWindowSizeChanged (current_x s) (current_y s) s
      else if option = OPT_CHARSET then sendCharsetRequest (supportedEncodings (textCodec s)) s
      else if option = OPT_GMCP then onGmcpEnabled s
      else s)"

text \<open>The bytes the host has received in clean-byte flushes, in order.\<close>

fun mapperBytes :: "'g event \<Rightarrow> bytes" where
  "mapperBytes (SendToMapper data goAhead) = data"
| "mapperBytes _ = []"

definition flushed :: "'g event list \<Rightarrow> bytes" where
  "flushed evs = concat (map mapperBytes evs)"

text \<open>
  The engine with GA detection disabled: the read loops of \<open>onReadInternal\<close> and
  \<open>onReadInternalInflate\<close> with the flush on \<open>recvdGA\<close> taken out. A go-ahead is
  forgotten where the engine would have flushed.
\<close>

definition dropGA ::
  "('z, 't, 'g) AbstractTelnet \<times> bytes \<Rightarrow> ('z, 't, 'g) AbstractTelnet \<times> bytes" where
  "dropGA sc = (case sc of (s, cleanData) \<Rightarrow> (s\<lparr>recvdGA := False\<rparr>, cleanData))"

fun feedInflated_noGA ::
  "('z, 'g) env \<Rightarrow> bytes \<Rightarrow> ('z, 't, 'g) AbstractTelnet \<times> bytes
     \<Rightarrow> (unit, ('z, 't, 'g) AbstractTelnet \<times> bytes) outcome" where
  "feedInflated_noGA env [] sc = Return () sc"
| "feedInflated_noGA env (c # cs) sc =
     (case onReadInternal2 env c sc of
        Throw e sc1 \<Rightarrow> Throw e sc1
      | Return _ sc1 \<Rightarrow> feedInflated_noGA env cs (dropGA sc1))"

fun inflateLoop_noGA ::
  "nat \<Rightarrow> ('z, 'g) env \<Rightarrow> bytes \<Rightarrow> ('z, 't, 'g) AbstractTelnet \<times> bytes
     \<Rightarrow> (nat, ('z, 't, 'g) AbstractTelnet \<times> bytes) outcome option" where
  "inflateLoop_noGA 0 env input sc = None"
| "inflateLoop_noGA (Suc n) env input sc =
     (case sc of (s, cleanData) \<Rightarrow>
      (let r = z_inflate env (stream s) input;
           s1 = s\<lparr>stream := next_stream r\<rparr>
       in
         if ret r = Z_STREAM_ERROR then Some (Throw AssertFailed (s1, cleanData))
         else if ret r = Z_NEED_DICT \<or> ret r = Z_DATA_ERROR \<or> ret r = Z_MEM_ERROR
                 \<or> ret r = Z_STREAM_END
         then
           (let s2 = s1\<lparr>stream := z_inflateEnd env (stream s1)\<rparr>;
                s3 = resetCompress s2
            in Some (Throw (runtime_error (z_msg env (stream s3))) (s3, cleanData)))
         else
           (let out = take CHUNK (produced r);
                avail_out = CHUNK - length out;
                input1 = drop (consumed r) input
            in case feedInflated_noGA env out (s1, cleanData) of
                 Throw e sc1 \<Rightarrow> Some (Throw e sc1)
               | Return _ sc1 \<Rightarrow>
                   if avail_out = 0 then inflateLoop_noGA n env input1 sc1
                   else Some (Return (length input1) sc1))))"

definition onReadInternalInflate_noGA ::
  "nat \<Rightarrow> ('z, 'g) env \<Rightarrow> bytes \<Rightarrow> ('z, 't, 'g) AbstractTelnet \<times> bytes
     \<Rightarrow> (nat, ('z, 't, 'g) AbstractTelnet \<times> bytes) outcome option" where
  "onReadInternalInflate_noGA n env data sc =
     (if NO_ZLIB env then Some (Throw Aborted sc) else inflateLoop_noGA n env data sc)"

fun readLoop_noGA ::
  "nat \<Rightarrow> ('z, 'g) env \<Rightarrow> bytes \<Rightarrow> ('z, 't, 'g) AbstractTelnet \<times> bytes
     \<Rightarrow> (unit, ('z, 't, 'g) AbstractTelnet \<times> bytes) outcome option" where
  "readLoop_noGA n env [] sc = Some (Return () sc)"
| "readLoop_noGA 0 env (c # rest) sc = None"
| "readLoop_noGA (Suc n) env (c # rest) sc =
     (case sc of (s, cleanData) \<Rightarrow>
        if inflateTelnet s then
          (case onReadInternalInflate_noGA n env (c # rest) sc of
             None \<Rightarrow> None
           | Some (Throw e sc1) \<Rightarrow> Some (Throw e sc1)
           | Some (Return remaining sc1) \<Rightarrow>
               readLoop_noGA n env (drop (length (c # rest) - remaining) (c # rest)) sc1)
        else
          (case onReadInternal2 env c sc of
             Throw e sc1 \<Rightarrow> Some (Throw e sc1)
           | Return _ sc1 \<Rightarrow>
               (case sc1 of (s1, cleanData1) \<Rightarrow>
                  if recvdCompress s1 then
                    (case initCompress env s1 of
                       Throw e s2 \<Rightarrow> Some (Throw e (s2, cleanData1))
                     | Return _ s2 \<Rightarrow>
                         readLoop_noGA n env rest (s2\<lparr>recvdCompress := False\<rparr>, cleanData1))
                  else readLoop_noGA n env rest (dropGA sc1))))"

definition onReadInternal_noGA ::
  "nat \<Rightarrow> ('z, 'g) env \<Rightarrow> bytes \<Rightarrow> ('z, 't, 'g) AbstractTelnet
     \<Rightarrow> (unit, ('z, 't, 'g) AbstractTelnet) outcome option" where
  "onReadInternal_noGA n env data s =
     (if data = [] then Some (Return () s)
      else
        (case readLoop_noGA n env data (s, []) of
           None \<Rightarrow> None
         | Some (Throw e (s1, cleanData)) \<Rightarrow> Some (Throw e s1)
         | Some (Return _ (s1, cleanData)) \<Rightarrow>
             Some (Return ()
               (if cleanData \<noteq> [] then sendToMapper cleanData (recvdGA s1) s1 else s1))))"

section \<open>Notions for the statements\<close>

text \<open>The state an outcome carries, and a function applied to it.\<close>

fun stateOf :: "('r, 's) outcome \<Rightarrow> 's" where
  "stateOf (Return r s) = s"
| "stateOf (Throw e s) = s"

fun mapState :: "('s \<Rightarrow> 't) \<Rightarrow> ('r, 's) outcome \<Rightarrow> ('r, 't) outcome" where
  "mapState f (Return r s) = Return r (f s)"
| "mapState f (Throw e s) = Throw e (f s)"

text \<open>
  The engine without the record of its clean-byte flushes, and an engine with its
  clean-data buffer where the flushes are undone: the bytes flushed so far are put
  back in front of the buffer.
\<close>

fun isFlush :: "'g event \<Rightarrow> bool" where
  "isFlush (SendToMapper data goAhead) = True"
| "isFlush _ = False"

definition withoutFlushes ::
  "('z, 't, 'g) AbstractTelnet \<Rightarrow> ('z, 't, 'g) AbstractTelnet" where
  "withoutFlushes s = s\<lparr>events := filter (\<lambda>e. \<not> isFlush e) (events s)\<rparr>"

definition unflush ::
  "('z, 't, 'g) AbstractTelnet \<times> bytes \<Rightarrow> ('z, 't, 'g) AbstractTelnet \<times> bytes" where
  "unflush sc = (case sc of (s, cleanData) \<Rightarrow> (withoutFlushes s, flushed (events s) @ cleanData))"

text \<open>Option 255 (EXOPL) is enabled on neither side.\<close>

definition noExopl :: "('z, 't, 'g) AbstractTelnet \<Rightarrow> bool" where
  "noExopl s = (\<not> myOptionState s 255 \<and> \<not> hisOptionState s 255)"

text \<open>
  Plain mode: the engine is not inflating, no start of compression is pending, and the
  peer's COMPRESS2 is off.
\<close>

definition plainMode :: "('z, 't, 'g) AbstractTelnet \<Rightarrow> bool" where
  "plainMode s = (\<not> inflateTelnet s \<and> \<not> recvdCompress s \<and> \<not> hisOptionState s OPT_COMPRESS2)"

text \<open>
  The parameters of the subnegotiations the engine sends, before escaping: a window
  dimension clamped to 16 bits, high byte first (section 4.4), and the entries of a
  STATUS IS reply, option by option (section 4.3).
\<close>

definition twoBytes :: "int \<Rightarrow> bytes" where
  "twoBytes n =
     (let m = (if n < 0 then 0 else if 65535 < n then 65535 else n)
      in [word_of_int (m div 256), word_of_int (m mod 256)])"

definition statusEntries :: "('z, 't, 'g) AbstractTelnet \<Rightarrow> bytes" where
  "statusEntries s =
     concat (map (\<lambda>i. (if myOptionState s (of_nat i) then [TN_WILL, of_nat i] else [])
                       @ (if hisOptionState s (of_nat i) then [TN_DO, of_nat i] else []))
                 [0..<NUM_OPTS])"

section \<open>An engine and its surroundings for the scenarios\<close>

text \<open>
  A freshly constructed engine that supports UTF-8 and Latin-1 and starts in Latin-1,
  with an 80 by 24 window; surroundings whose zlib hands its input through and sets no
  message, surroundings whose zlib reports a data error with its message, and
  surroundings whose zlib reaches the end of the compressed stream, where it sets no
  message.
\<close>

definition utf8Name :: bytes where
  "utf8Name = [85, 84, 70, 45, 56]"

definition latin1Name :: bytes where
  "latin1Name = [76, 65, 84, 73, 78, 49]"

definition engine0 :: "(unit, nat, bytes) AbstractTelnet" where
  "engine0 =
     newTelnet \<lparr>supportedEncodings = [latin1Name, utf8Name], encoding = latin1Name\<rparr>
       False [] 80 24 ()"

definition env0 :: "(unit, bytes) env" where
  "env0 =
     \<lparr>NO_ZLIB = False,
      z_inflate = (\<lambda>z input.
         \<lparr>ret = Z_OK, consumed = length input, produced = input, next_stream = z\<rparr>),
      z_inflateEnd = (\<lambda>z. z),
      z_inflateInit = (\<lambda>z. (Z_OK, z)),
      z_msg = (\<lambda>z. None),
      fromRawBytes = Some\<rparr>"

definition envDataError :: "(unit, bytes) env" where
  "envDataError =
     env0\<lparr>z_inflate := (\<lambda>z input.
         \<lparr>ret = Z_DATA_ERROR, consumed = 0, produced = [], next_stream = z\<rparr>),
       z_msg := (\<lambda>z. Some ''invalid block type'')\<rparr>"

definition envStreamEnd :: "(unit, bytes) env" where
  "envStreamEnd =
     env0\<lparr>z_inflate := (\<lambda>z input.
         \<lparr>ret = Z_STREAM_END, consumed = length input, produced = [], next_stream = z\<rparr>)\<rparr>"

section \<open>The outbound framer\<close>

lemma addEscapedBytes_doubleIAC: "addEscapedBytes cs s = s @ doubleIAC cs"
  by (induction cs arbitrary: s) (simp_all add: addEscaped_def addRaw_def)

lemma containsIAC_iff: "containsIAC cs \<longleftrightarrow> TN_IAC \<in> set cs"
  by (induction cs) auto

lemma doubleIAC_no_IAC: "TN_IAC \<notin> set cs \<Longrightarrow> doubleIAC cs = cs"
  by (induction cs) auto

lemma submitOverTelnet_eq:
  "submitOverTelnet B g s =
     sendRawData (doubleIAC B @
           (if g \<and> \<not> hisOptionState s OPT_SUPPRESS_GA then [TN_IAC, TN_GA] else [])) s"
  by (simp add: submitOverTelnet_def Let_def addEscapedBytes_doubleIAC
      containsIAC_iff doubleIAC_no_IAC)

lemmas engine0_defs =
  engine0_def newTelnet_def reset_def resetCompress_def resetGmcpModules_def

text \<open>
  C5: for every payload \<open>B\<close> and boolean \<open>g\<close>, \<open>submitOverTelnet B g\<close> makes one call of
  \<open>sendRawData\<close>, with \<open>B\<close> in which every \<open>0xFF\<close> is doubled and every other byte is as
  it was, followed by \<open>IAC GA\<close> exactly when \<open>g\<close> holds and \<open>hisOptionState[SUPPRESS_GA]\<close>
  does not. Nothing else of the engine changes: the state after is the state before
  with that one call added to what the transport has been given.
\<close>

theorem submitOverTelnet_sends:
  "submitOverTelnet B g s =
     s\<lparr>events := events s @
        [SendRawData (doubleIAC B @
           (if g \<and> \<not> hisOptionState s OPT_SUPPRESS_GA then [TN_IAC, TN_GA] else []))]\<rparr>"
  by (simp add: submitOverTelnet_eq sendRawData_def)

theorem submitOverTelnet_sends_witness:
  "submitOverTelnet [97, 255, 98] True engine0 =
     engine0\<lparr>events := [SendRawData [97, 255, 255, 98, 255, 249]]\<rparr>"
  using submitOverTelnet_sends [of "[97, 255, 98]" True engine0]
  by (simp add: engine0_defs)

section \<open>GMCP modules\<close>

text \<open>
  C8: enabling a GMCP module that has no version throws the runtime error
  \<open>"missing version"\<close>, and the engine is as it was before the call: the module set and
  the table of supported versions with it.
\<close>

theorem receiveGmcpModule_missing_version:
  "\<not> hasVersion m \<Longrightarrow>
     receiveGmcpModule m True s = Throw (RuntimeError ''missing version'') s"
  by (simp add: receiveGmcpModule_def)

theorem receiveGmcpModule_missing_version_witness:
  "receiveGmcpModule
     \<lparr>normalizedName = ''char.vitals'', hasVersion = False, getVersion = 0,
      isSupported = True, getType = 3\<rparr> True engine0
   = Throw (RuntimeError ''missing version'') engine0"
  using receiveGmcpModule_missing_version
    [of "\<lparr>normalizedName = ''char.vitals'', hasVersion = False, getVersion = 0,
      isSupported = True, getType = 3\<rparr>" engine0]
  by simp

text \<open>
  C10: \<open>isGmcpModuleEnabled t\<close> is false whenever \<open>myOptionState[GMCP]\<close> is false, whatever
  the table of supported versions holds; when \<open>myOptionState[GMCP]\<close> is true it is true
  exactly when the version stored for \<open>t\<close> is not the default version.
\<close>

theorem isGmcpModuleEnabled_iff:
  "(\<not> myOptionState s OPT_GMCP \<longrightarrow> \<not> isGmcpModuleEnabled t s) \<and>
   (myOptionState s OPT_GMCP \<longrightarrow>
      (isGmcpModuleEnabled t s \<longleftrightarrow> gmcp_supported s t \<noteq> DEFAULT_GMCP_MODULE_VERSION))"
  by (simp add: isGmcpModuleEnabled_def)

theorem isGmcpModuleEnabled_iff_witness:
  "\<not> isGmcpModuleEnabled 3 (engine0\<lparr>gmcp_supported := (gmcp_supported engine0)(3 := 1)\<rparr>)
   \<and> isGmcpModuleEnabled 3
       (engine0\<lparr>myOptionState := (myOptionState engine0)(OPT_GMCP := True),
                gmcp_supported := (gmcp_supported engine0)(3 := 1)\<rparr>)
   \<and> \<not> isGmcpModuleEnabled 4
       (engine0\<lparr>myOptionState := (myOptionState engine0)(OPT_GMCP := True),
                gmcp_supported := (gmcp_supported engine0)(3 := 1)\<rparr>)"
  using isGmcpModuleEnabled_iff
      [of "engine0\<lparr>gmcp_supported := (gmcp_supported engine0)(3 := 1)\<rparr>" 3]
    isGmcpModuleEnabled_iff
      [of "engine0\<lparr>myOptionState := (myOptionState engine0)(OPT_GMCP := True),
                gmcp_supported := (gmcp_supported engine0)(3 := 1)\<rparr>" 3]
    isGmcpModuleEnabled_iff
      [of "engine0\<lparr>myOptionState := (myOptionState engine0)(OPT_GMCP := True),
                gmcp_supported := (gmcp_supported engine0)(3 := 1)\<rparr>" 4]
  by (simp add: engine0_defs DEFAULT_GMCP_MODULE_VERSION_def)

section \<open>The byte state machine and the transition table\<close>

text \<open>
  C1: in each of the six states and for every byte, \<open>onReadInternal2\<close> does what the row of
  the transition table says: it moves to the row's state and performs the row's
  actions, in order. In \<open>NORMAL\<close> a byte other than \<open>IAC\<close> goes to the clean buffer;
  \<open>IAC IAC\<close> appends \<open>0xFF\<close> to the clean buffer; \<open>IAC SE\<close> alone only clears the command
  buffer; inside a subnegotiation \<open>IAC IAC\<close> appends one \<open>0xFF\<close> to the subneg buffer,
  \<open>IAC SE\<close> emits the subnegotiation and returns to \<open>NORMAL\<close>, \<open>IAC SB\<close> drops it, and
  \<open>IAC <WILL/WONT/DO/DONT> x\<close> and \<open>IAC <other>\<close> are emitted as commands while the state
  machine stays in the subnegotiation.
\<close>

theorem onReadInternal2_follows_table:
  "onReadInternal2 env c (s, clean) = tableStep env c (s, clean)"
  by (cases "state s")
     (simp_all add: onReadInternal2_def byteFSM_def tableStep_def emitCommand_def emitSubneg_def
        isNegotiation_def split: outcome.splits)


theorem onReadInternal2_follows_table_witness:
  "onReadInternal2 env0 TN_IAC
     (engine0\<lparr>state := SUBNEG_IAC, commandBuffer := [TN_IAC], subnegBuffer := [OPT_GMCP]\<rparr>, [])
   = Return ()
       (engine0\<lparr>state := SUBNEG, commandBuffer := [], subnegBuffer := [OPT_GMCP, TN_IAC]\<rparr>, [])"
  using onReadInternal2_follows_table [of env0 TN_IAC
     "engine0\<lparr>state := SUBNEG_IAC, commandBuffer := [TN_IAC], subnegBuffer := [OPT_GMCP]\<rparr>" "[]"]
  by (simp add: tableStep_def)

section \<open>Escaped payloads come back as they were\<close>

lemma state_update_same: "state s = st \<Longrightarrow> s\<lparr>state := st\<rparr> = s"
  by (cases s) simp

lemma byteFSM_escaped_IAC:
  "state s = NORMAL \<Longrightarrow>
   feedFSM pc ps (TN_IAC # TN_IAC # cs) (s, clean) =
   feedFSM pc ps cs (s\<lparr>commandBuffer := []\<rparr>, clean @ [TN_IAC])"
  by (simp add: byteFSM_def state_update_same)

lemma byteFSM_plain:
  "state s = NORMAL \<Longrightarrow> b \<noteq> TN_IAC \<Longrightarrow>
   feedFSM pc ps (b # cs) (s, clean) = feedFSM pc ps cs (s, clean @ [b])"
  by (simp add: byteFSM_def)

lemma feedFSM_doubleIAC:
  "state s = NORMAL \<Longrightarrow>
   feedFSM pc ps (doubleIAC S) (s, clean) =
     Return () (s\<lparr>commandBuffer := (if TN_IAC \<in> set S then [] else commandBuffer s)\<rparr>,
                clean @ S)"
proof (induction S arbitrary: s clean)
  case Nil
  then show ?case by simp
next
  case (Cons b S)
  show ?case
  proof (cases "b = TN_IAC")
    case True
    have st: "state (s\<lparr>commandBuffer := []\<rparr>) = NORMAL" using Cons.prems by simp
    show ?thesis
      using True Cons.prems Cons.IH [OF st, of "clean @ [TN_IAC]"]
      by (simp add: byteFSM_escaped_IAC del: feedFSM.simps)
  next
    case False
    show ?thesis
      using False Cons.prems Cons.IH [OF Cons.prems, of "clean @ [b]"]
      by (simp add: byteFSM_plain del: feedFSM.simps)
  qed
qed

lemma readLoop_escaped_IAC:
  "state s = NORMAL \<Longrightarrow> \<not> inflateTelnet s \<Longrightarrow> \<not> recvdGA s \<Longrightarrow> \<not> recvdCompress s \<Longrightarrow>
   readLoop (Suc (Suc n)) env (TN_IAC # TN_IAC # cs) (s, clean) =
   readLoop n env cs (s\<lparr>commandBuffer := []\<rparr>, clean @ [TN_IAC])"
  by (simp add: onReadInternal2_def byteFSM_def flushOnGA_def state_update_same)

lemma readLoop_plain:
  "state s = NORMAL \<Longrightarrow> \<not> inflateTelnet s \<Longrightarrow> \<not> recvdGA s \<Longrightarrow> \<not> recvdCompress s \<Longrightarrow>
   b \<noteq> TN_IAC \<Longrightarrow>
   readLoop (Suc n) env (b # cs) (s, clean) = readLoop n env cs (s, clean @ [b])"
  by (simp add: onReadInternal2_def byteFSM_def flushOnGA_def)

lemma readLoop_doubleIAC:
  "state s = NORMAL \<Longrightarrow> \<not> inflateTelnet s \<Longrightarrow> \<not> recvdGA s \<Longrightarrow> \<not> recvdCompress s \<Longrightarrow>
   readLoop (length (doubleIAC S) + k) env (doubleIAC S) (s, clean) =
     Some (Return ()
       (s\<lparr>commandBuffer := (if TN_IAC \<in> set S then [] else commandBuffer s)\<rparr>, clean @ S))"
proof (induction S arbitrary: s clean)
  case Nil
  then show ?case by simp
next
  case (Cons b S)
  show ?case
  proof (cases "b = TN_IAC")
    case True
    have "state (s\<lparr>commandBuffer := []\<rparr>) = NORMAL"
      "\<not> inflateTelnet (s\<lparr>commandBuffer := []\<rparr>)"
      "\<not> recvdGA (s\<lparr>commandBuffer := []\<rparr>)"
      "\<not> recvdCompress (s\<lparr>commandBuffer := []\<rparr>)"
      using Cons.prems by simp_all
    from Cons.IH [OF this, of "clean @ [TN_IAC]"] True Cons.prems
    show ?thesis by (simp add: readLoop_escaped_IAC del: readLoop.simps)
  next
    case False
    from Cons.IH [OF Cons.prems, of "clean @ [b]"] False Cons.prems
    show ?thesis by (simp add: readLoop_plain del: readLoop.simps)
  qed
qed

lemma doubleIAC_Nil_iff: "doubleIAC S = [] \<longleftrightarrow> S = []"
  by (cases S) auto


text \<open>
  C2: for every byte sequence \<open>S\<close>, the outbound framer without go-ahead sends \<open>S\<close> with
  every \<open>0xFF\<close> doubled; these bytes, fed to the byte state machine in state \<open>NORMAL\<close>, add
  exactly \<open>S\<close> to the clean buffer and leave the machine in \<open>NORMAL\<close>. The result is the
  same whatever the handlers \<open>pc\<close> and \<open>ps\<close> of commands and subnegotiations are, so the
  run emits neither. Of the engine only the scratch command buffer may differ
  afterwards, and it is empty if it was empty. Fed through \<open>onReadInternal\<close> to an engine
  that is not inflating, the host gets \<open>S\<close> in one flush without go-ahead.
\<close>

theorem escaped_round_trip:
  "state s = NORMAL \<Longrightarrow>
     submitOverTelnet S False s0 = sendRawData (doubleIAC S) s0 \<and>
     feedFSM pc ps (doubleIAC S) (s, clean) =
       Return () (s\<lparr>commandBuffer := (if TN_IAC \<in> set S then [] else commandBuffer s)\<rparr>,
                  clean @ S) \<and>
     (\<not> inflateTelnet s \<and> \<not> recvdGA s \<and> \<not> recvdCompress s \<longrightarrow>
        onReadInternal (length (doubleIAC S) + k) env (doubleIAC S) s =
          Some (Return ()
            (if S = [] then s
             else sendToMapper S False
               (s\<lparr>commandBuffer := (if TN_IAC \<in> set S then [] else commandBuffer s)\<rparr>))))"
  by (simp add: submitOverTelnet_eq feedFSM_doubleIAC onReadInternal_def readLoop_doubleIAC
      doubleIAC_Nil_iff)

theorem escaped_round_trip_witness:
  "feedFSM (\<lambda>b s. Throw Aborted s) (\<lambda>b s. Throw Aborted s) [97, 255, 255, 98] (engine0, [])
     = Return () (engine0\<lparr>commandBuffer := []\<rparr>, [97, 255, 98])
   \<and> onReadInternal (Suc (Suc (Suc (Suc 0)))) env0 [97, 255, 255, 98] engine0
     = Some (Return () (sendToMapper [97, 255, 98] False (engine0\<lparr>commandBuffer := []\<rparr>)))"
proof -
  have st: "state engine0 = NORMAL"
    by (simp add: engine0_defs)
  have fl: "\<not> inflateTelnet engine0 \<and> \<not> recvdGA engine0 \<and> \<not> recvdCompress engine0"
    by (simp add: engine0_defs)
  from escaped_round_trip [OF st, of "[97, 255, 98]" engine0 "\<lambda>b s. Throw Aborted s"
      "\<lambda>b s. Throw Aborted s" "[]" 0 env0] fl
  show ?thesis by simp
qed

section \<open>Evaluating the engine\<close>

text \<open>
  Facts for running the read loops on given bytes: the definitions to unfold, the
  fields of an engine after \<open>reset\<close>, and that a loop that ends within some fuel ends the
  same way within more.
\<close>

lemmas sender_defs = sendRawData_def sendTelnetOption_def sendWindowSizeChanged_def
  sendCharsetRequest_def sendGmcpMessage_def sendTerminalType_def sendCharsetRejected_def
  sendCharsetAccepted_def sendOptionStatus_def sendAreYouThere_def sendTerminalTypeRequest_def
  sendToMapper_def receiveEchoMode_def receiveTerminalType_def receiveWindowSize_def
  receiveGmcpMessage_def onGmcpEnabled_def

lemmas formatter_defs = addRaw_def addEscaped_def addTwoByteEscaped_def clamp_def
  addClampedTwoByteEscaped_def addCommand_def addSubnegBegin_def addSubnegEnd_def

lemmas fsm_defs = onReadInternal_def onReadInternal2_def byteFSM_def emitCommand_def
  emitSubneg_def flushOnGA_def

lemma readLoop_numeral:
  "readLoop (numeral k) env (c # rest) sc =
     (case sc of (s, cleanData) \<Rightarrow>
        if inflateTelnet s then
          (case onReadInternalInflate (pred_numeral k) env (c # rest) sc of
             None \<Rightarrow> None
           | Some (Throw e sc1) \<Rightarrow> Some (Throw e sc1)
           | Some (Return remaining sc1) \<Rightarrow>
               readLoop (pred_numeral k) env (drop (length (c # rest) - remaining) (c # rest)) sc1)
        else
          (case onReadInternal2 env c sc of
             Throw e sc1 \<Rightarrow> Some (Throw e sc1)
           | Return _ sc1 \<Rightarrow>
               (case sc1 of (s1, cleanData1) \<Rightarrow>
                  if recvdCompress s1 then
                    (case initCompress env s1 of
                       Throw e s2 \<Rightarrow> Some (Throw e (s2, cleanData1))
                     | Return _ s2 \<Rightarrow>
                         readLoop (pred_numeral k) env rest (s2\<lparr>recvdCompress := False\<rparr>, cleanData1))
                  else readLoop (pred_numeral k) env rest (flushOnGA sc1))))"
  unfolding numeral_eq_Suc by (rule readLoop.simps(3))

lemma reset_fields:
  "myOptionState (reset s) = (\<lambda>_. False)" "hisOptionState (reset s) = (\<lambda>_. False)"
  "announcedState (reset s) = (\<lambda>_. False)" "heAnnouncedState (reset s) = (\<lambda>_. False)"
  "termType (reset s) = m_defaultTermType s" "state (reset s) = NORMAL"
  "commandBuffer (reset s) = []" "subnegBuffer (reset s) = []"
  "recvdGA (reset s) = False" "recvdCompress (reset s) = False"
  "inflateTelnet (reset s) = False" "debug (reset s) = debug s"
  "textCodec (reset s) = textCodec s" "current_x (reset s) = current_x s"
  "current_y (reset s) = current_y s" "events (reset s) = events s" "stream (reset s) = stream s"
  by (simp_all add: reset_def resetCompress_def resetGmcpModules_def fun_eq_iff)

lemma engine0_fields:
  "myOptionState engine0 = (\<lambda>_. False)" "hisOptionState engine0 = (\<lambda>_. False)"
  "announcedState engine0 = (\<lambda>_. False)" "heAnnouncedState engine0 = (\<lambda>_. False)"
  "termType engine0 = []" "state engine0 = NORMAL" "commandBuffer engine0 = []"
  "subnegBuffer engine0 = []" "recvdGA engine0 = False" "recvdCompress engine0 = False"
  "inflateTelnet engine0 = False" "debug engine0 = False"
  "textCodec engine0 = \<lparr>supportedEncodings = [latin1Name, utf8Name], encoding = latin1Name\<rparr>"
  "current_x engine0 = 80" "current_y engine0 = 24" "events engine0 = []"
  by (simp_all add: engine0_def newTelnet_def reset_fields)

lemma inflateLoop_more_fuel:
  "inflateLoop n env input sc = Some r \<Longrightarrow> inflateLoop (n + k) env input sc = Some r"
proof (induction n arbitrary: input sc)
  case 0
  then show ?case by simp
next
  case (Suc n)
  obtain s cleanData where sc: "sc = (s, cleanData)" by (cases sc)
  from Suc.prems Suc.IH show ?case
    by (auto simp add: sc Let_def split: if_splits outcome.splits)
qed

lemma readLoop_more_fuel:
  "readLoop n env data sc = Some r \<Longrightarrow> readLoop (n + k) env data sc = Some r"
proof (induction n env data sc rule: readLoop.induct)
  case (1 n env sc)
  then show ?case by simp
next
  case (2 env c rest sc)
  then show ?case by simp
next
  case (3 n env c rest sc)
  obtain s cleanData where sc: "sc = (s, cleanData)" by (cases sc)
  show ?case
  proof (cases "inflateTelnet s")
    case True
    with "3.prems" obtain o1 where o1: "onReadInternalInflate n env (c # rest) sc = Some o1"
      by (auto simp add: sc split: option.splits)
    then have o1k: "onReadInternalInflate (n + k) env (c # rest) sc = Some o1"
      by (auto simp add: onReadInternalInflate_def inflateLoop_more_fuel split: if_splits)
    show ?thesis
    proof (cases o1)
      case (Return remaining sc1)
      with "3.prems" True o1 have "readLoop n env (drop (length (c # rest) - remaining) (c # rest)) sc1 = Some r"
        by (simp add: sc)
      from "3.IH"(1) [OF sc [symmetric] True o1 Return this] True o1k Return
      show ?thesis by (simp add: sc)
    next
      case (Throw e sc1)
      with "3.prems" True o1 o1k show ?thesis by (auto simp add: sc)
    qed
  next
    case False
    show ?thesis
    proof (cases "onReadInternal2 env c sc")
      case (Return u sc1)
      obtain s1 cleanData1 where sc1: "sc1 = (s1, cleanData1)" by (cases sc1)
      show ?thesis
      proof (cases "recvdCompress s1")
        case rc: True
        show ?thesis
        proof (cases "initCompress env s1")
          case r2: (Return u2 s2)
          with "3.prems" False Return sc1 rc
          have "readLoop n env rest (s2\<lparr>recvdCompress := False\<rparr>, cleanData1) = Some r"
            by (simp add: sc)
          from "3.IH"(2) [OF sc [symmetric] False Return sc1 [symmetric] rc r2 this]
            False Return sc1 rc r2
          show ?thesis by (simp add: sc)
        next
          case (Throw e s2)
          with "3.prems" False Return sc1 rc show ?thesis by (auto simp add: sc)
        qed
      next
        case nrc: False
        with "3.prems" False Return sc1
        have "readLoop n env rest (flushOnGA sc1) = Some r"
          by (simp add: sc)
        from "3.IH"(3) [OF sc [symmetric] False Return sc1 [symmetric] nrc this]
          False Return sc1 nrc
        show ?thesis by (simp add: sc)
      qed
    next
      case (Throw e sc1)
      with "3.prems" False show ?thesis by (auto simp add: sc)
    qed
  qed
qed

lemma onReadInternal_more_fuel:
  "onReadInternal n env data s = Some r \<Longrightarrow> onReadInternal (n + k) env data s = Some r"
  by (auto simp add: onReadInternal_def readLoop_more_fuel split: if_splits option.splits)

lemma readChunks_more_fuel:
  "readChunks n env chunks s = Some r \<Longrightarrow> readChunks (n + k) env chunks s = Some r"
  by (induction chunks arbitrary: s)
     (auto simp add: onReadInternal_more_fuel split: option.splits outcome.splits)

lemma readChunks_fuel_le:
  "readChunks m env chunks s = Some r \<Longrightarrow> m \<le> n \<Longrightarrow> readChunks n env chunks s = Some r"
  using readChunks_more_fuel [of m env chunks s r "n - m"] by simp

lemma onReadInternal_fuel_le:
  "onReadInternal m env data s = Some r \<Longrightarrow> m \<le> n \<Longrightarrow> onReadInternal n env data s = Some r"
  using onReadInternal_more_fuel [of m env data s r "n - m"] by simp

lemma doubleIAC_append: "doubleIAC (a @ b) = doubleIAC a @ doubleIAC b"
  by (induction a) simp_all

lemma charsetRequestBody_eq:
  "charsetRequestBody cs s = s @ doubleIAC (concat (map (\<lambda>c. 59 # c) cs))"
  by (induction cs arbitrary: s) (simp_all add: addEscapedBytes_doubleIAC doubleIAC_append)

section \<open>DO and the enable side-effect\<close>

text \<open>
  C6, as the code has it: on \<open>DO o\<close> for a supported option \<open>o\<close> other than TIMING_MARK
  with \<open>myOptionState[o]\<close> false, the engine replies \<open>WILL o\<close>, sets \<open>myOptionState[o]\<close> and
  \<open>announcedState[o]\<close> and runs the enable side-effect of \<open>o\<close> (for NAWS it sends the current
  window size as a NAWS subnegotiation). On \<open>DO o\<close> with \<open>myOptionState[o]\<close> already true
  it sends no reply and changes no table, and runs the side-effect of \<open>o\<close> again: the
  side-effect follows every \<open>DO o\<close> that leaves the option enabled.
\<close>

theorem do_option:
  "option \<noteq> OPT_TIMING_MARK \<Longrightarrow>
   (supportedByDo option \<and> \<not> myOptionState s option \<longrightarrow>
      processTelnetCommand env [TN_IAC, TN_DO, option] s =
        Return ()
          (enableSideEffect option
             ((sendTelnetOption TN_WILL option s)
                \<lparr>myOptionState := (myOptionState s)(option := True),
                 announcedState := (announcedState s)(option := True)\<rparr>))) \<and>
   (myOptionState s option \<longrightarrow>
      processTelnetCommand env [TN_IAC, TN_DO, option] s =
        Return () (enableSideEffect option s))"
  by (auto simp add: processTelnetCommand_def commandDo_def doReply_def doFollowUp_def enableSideEffect_def supportedByDo_def
      sendTelnetOption_def sendRawData_def Let_def)

theorem do_option_witness:
  "processTelnetCommand env0 [TN_IAC, TN_DO, OPT_NAWS] engine0 =
     Return ()
       (enableSideEffect OPT_NAWS
          ((sendTelnetOption TN_WILL OPT_NAWS engine0)
             \<lparr>myOptionState := (myOptionState engine0)(OPT_NAWS := True),
              announcedState := (announcedState engine0)(OPT_NAWS := True)\<rparr>)) \<and>
   processTelnetCommand env0 [TN_IAC, TN_DO, OPT_NAWS]
       (engine0\<lparr>myOptionState := (myOptionState engine0)(OPT_NAWS := True)\<rparr>) =
     Return ()
       (enableSideEffect OPT_NAWS
          (engine0\<lparr>myOptionState := (myOptionState engine0)(OPT_NAWS := True)\<rparr>))"
  using do_option [of OPT_NAWS engine0 env0]
    do_option [of OPT_NAWS "engine0\<lparr>myOptionState := (myOptionState engine0)(OPT_NAWS := True)\<rparr>"
      env0]
  by (simp add: supportedByDo_def engine0_fields)

text \<open>
  The claim C6 says that a \<open>DO o\<close> received while \<open>myOptionState[o]\<close> is true triggers no
  side-effect. Two \<open>IAC DO NAWS\<close> in a row, from the fresh engine: the second one makes
  the engine send the window size a second time.
\<close>

theorem do_naws_twice:
  "readChunks 3 env0 [[255, 253, 31], [255, 253, 31]] engine0 =
     Some (Return ()
       (engine0\<lparr>myOptionState := (myOptionState engine0)(OPT_NAWS := True),
                announcedState := (announcedState engine0)(OPT_NAWS := True),
                events := [SendRawData [255, 251, 31],
                           SendRawData [255, 250, 31, 0, 80, 0, 24, 255, 240],
                           SendRawData [255, 250, 31, 0, 80, 0, 24, 255, 240]]\<rparr>))"
  by (simp add: readLoop_numeral engine0_fields fsm_defs processTelnetCommand_def commandDo_def doReply_def doFollowUp_def
      supportedByDo_def sender_defs formatter_defs)

section \<open>CHARSET REQUEST\<close>

lemma charset_scenarios:
  "supports (textCodec s0) utf8Name \<Longrightarrow>
   readChunks 12 env
     [[255, 251, 42], [255, 250, 42, 1, 59, 85, 84, 70, 45, 56, 255, 240]] (reset s0) =
     Some (Return ()
       ((reset s0)\<lparr>hisOptionState := (\<lambda>_. False)(OPT_CHARSET := True),
                heAnnouncedState := (\<lambda>_. False)(OPT_CHARSET := True),
                events := events s0 @ [SendRawData [255, 253, 42]]\<rparr>)) \<and>
   readChunks 12 env
     [[255, 251, 42], [255, 253, 42], [255, 250, 42, 1, 59, 85, 84, 70, 45, 56, 255, 240]]
     (reset s0) =
     Some (Return ()
       ((reset s0)\<lparr>myOptionState := (\<lambda>_. False)(OPT_CHARSET := True),
                announcedState := (\<lambda>_. False)(OPT_CHARSET := True),
                hisOptionState := (\<lambda>_. False)(OPT_CHARSET := True),
                heAnnouncedState := (\<lambda>_. False)(OPT_CHARSET := True),
                textCodec := (textCodec s0)\<lparr>encoding := utf8Name\<rparr>,
                events := events s0 @
                  [SendRawData [255, 253, 42],
                   SendRawData [255, 251, 42],
                   SendRawData (subnegFrame OPT_CHARSET
                     (TNSB_REQUEST # concat (map (\<lambda>c. 59 # c) (supportedEncodings (textCodec s0))))),
                   SendRawData [255, 250, 42, 2, 85, 84, 70, 45, 56, 255, 240]]\<rparr>))"
  by (simp add: readLoop_numeral reset_fields fsm_defs processTelnetCommand_def commandWill_def
      commandDo_def doReply_def doFollowUp_def supportedByDo_def charsetRequestBody_eq subnegFrame_def
      supportedByWill_def processTelnetSubnegotiation_def subnegCharset_def byteAt_def 
      split_sep_def utf8Name_def setEncodingForName_def sender_defs formatter_defs)

text \<open>
  C4, as the code has it: from the state after \<open>reset\<close>, with UTF-8 among the supported
  encodings, \<open>IAC WILL CHARSET\<close> makes the engine send \<open>IAC DO CHARSET\<close>. The handler of
  CHARSET subnegotiations is guarded by \<open>myOptionState[CHARSET]\<close>, which \<open>WILL CHARSET\<close> does
  not set: the \<open>CHARSET REQUEST ";" "UTF-8"\<close> that follows is ignored, nothing more is sent
  and the encoding stays. When the peer sends \<open>IAC DO CHARSET\<close> as well before its request
  (the engine answers \<open>IAC WILL CHARSET\<close> and requests its own encodings), the request is
  answered with \<open>CHARSET ACCEPTED UTF-8\<close> and the encoding becomes UTF-8. The fuel \<open>n\<close> is
  any number of loop rounds from 12 on, the length of the longest chunk.
\<close>

theorem charset_request_guarded:
  "supports (textCodec s0) utf8Name \<Longrightarrow> 12 \<le> n \<Longrightarrow>
   readChunks n env
     [[255, 251, 42], [255, 250, 42, 1, 59, 85, 84, 70, 45, 56, 255, 240]] (reset s0) =
     Some (Return ()
       ((reset s0)\<lparr>hisOptionState := (\<lambda>_. False)(OPT_CHARSET := True),
                heAnnouncedState := (\<lambda>_. False)(OPT_CHARSET := True),
                events := events s0 @ [SendRawData [255, 253, 42]]\<rparr>)) \<and>
   readChunks n env
     [[255, 251, 42], [255, 253, 42], [255, 250, 42, 1, 59, 85, 84, 70, 45, 56, 255, 240]]
     (reset s0) =
     Some (Return ()
       ((reset s0)\<lparr>myOptionState := (\<lambda>_. False)(OPT_CHARSET := True),
                announcedState := (\<lambda>_. False)(OPT_CHARSET := True),
                hisOptionState := (\<lambda>_. False)(OPT_CHARSET := True),
                heAnnouncedState := (\<lambda>_. False)(OPT_CHARSET := True),
                textCodec := (textCodec s0)\<lparr>encoding := utf8Name\<rparr>,
                events := events s0 @
                  [SendRawData [255, 253, 42],
                   SendRawData [255, 251, 42],
                   SendRawData (subnegFrame OPT_CHARSET
                     (TNSB_REQUEST # concat (map (\<lambda>c. 59 # c) (supportedEncodings (textCodec s0))))),
                   SendRawData [255, 250, 42, 2, 85, 84, 70, 45, 56, 255, 240]]\<rparr>))"
proof -
  assume s: "supports (textCodec s0) utf8Name" and n: "12 \<le> n"
  note sc = charset_scenarios [OF s, of env]
  show ?thesis
    by (rule conjI)
       (rule readChunks_fuel_le [OF sc [THEN conjunct1] n],
        rule readChunks_fuel_le [OF sc [THEN conjunct2] n])
qed

theorem charset_request_guarded_witness:
  "readChunks 12 env0
     [[255, 251, 42], [255, 253, 42], [255, 250, 42, 1, 59, 85, 84, 70, 45, 56, 255, 240]]
     (reset engine0) =
     Some (Return ()
       ((reset engine0)\<lparr>myOptionState := (\<lambda>_. False)(OPT_CHARSET := True),
                announcedState := (\<lambda>_. False)(OPT_CHARSET := True),
                hisOptionState := (\<lambda>_. False)(OPT_CHARSET := True),
                heAnnouncedState := (\<lambda>_. False)(OPT_CHARSET := True),
                textCodec := (textCodec engine0)\<lparr>encoding := utf8Name\<rparr>,
                events := events engine0 @
                  [SendRawData [255, 253, 42],
                   SendRawData [255, 251, 42],
                   SendRawData (subnegFrame OPT_CHARSET
                     (TNSB_REQUEST #
                      concat (map (\<lambda>c. 59 # c) (supportedEncodings (textCodec engine0))))),
                   SendRawData [255, 250, 42, 2, 85, 84, 70, 45, 56, 255, 240]]\<rparr>))"
proof -
  have "supports (textCodec engine0) utf8Name"
    by (simp add: engine0_fields supports_def)
  from charset_request_guarded [OF this, of 12 env0] show ?thesis
    by simp
qed

text \<open>
  The claim C4 says that \<open>FF FB 2A\<close> and then the request make the engine send
  \<open>FF FD 2A\<close> and then \<open>CHARSET ACCEPTED UTF-8\<close>, and that the encoding becomes UTF-8. On
  the fresh engine, which supports UTF-8 and runs in Latin-1, only \<open>FF FD 2A\<close> is sent and
  the codec is untouched.
\<close>

theorem will_charset_then_request:
  "readChunks 12 env0
     [[255, 251, 42], [255, 250, 42, 1, 59, 85, 84, 70, 45, 56, 255, 240]] engine0 =
     Some (Return ()
       (engine0\<lparr>hisOptionState := (hisOptionState engine0)(OPT_CHARSET := True),
                heAnnouncedState := (heAnnouncedState engine0)(OPT_CHARSET := True),
                events := [SendRawData [255, 253, 42]]\<rparr>))"
  by (simp add: readLoop_numeral engine0_fields fsm_defs processTelnetCommand_def commandWill_def
      supportedByWill_def processTelnetSubnegotiation_def byteAt_def sender_defs formatter_defs)

section \<open>The end of decompression\<close>

lemma inflateLoop_error:
  "ret (z_inflate env (stream s) input) = Z_NEED_DICT
     \<or> ret (z_inflate env (stream s) input) = Z_DATA_ERROR
     \<or> ret (z_inflate env (stream s) input) = Z_MEM_ERROR
     \<or> ret (z_inflate env (stream s) input) = Z_STREAM_END \<Longrightarrow>
   inflateLoop (Suc n) env input (s, cleanData) =
     Some (Throw
       (runtime_error (z_msg env (z_inflateEnd env (next_stream (z_inflate env (stream s) input)))))
       (s\<lparr>stream := z_inflateEnd env (next_stream (z_inflate env (stream s) input)),
          inflateTelnet := False, recvdCompress := False,
          hisOptionState := (hisOptionState s)(OPT_COMPRESS2 := False)\<rparr>, cleanData))"
  by (auto simp add: Let_def resetCompress_def)

lemma inflateLoop_numeral:
  "inflateLoop (numeral k) env input sc = inflateLoop (Suc (pred_numeral k)) env input sc"
  by (simp only: numeral_eq_Suc)

text \<open>
  Plain mode lasts as long as no byte 86 arrives: only WILL COMPRESS2 turns the peer's
  COMPRESS2 on, and only a COMPRESS2 subnegotiation with it on asks for inflation. In
  plain mode the read loop returns once the fuel covers the input, and what it returns
  does not depend on zlib.
\<close>

lemma plain_will:
  "option \<noteq> OPT_COMPRESS2 \<Longrightarrow>
   hisOptionState (commandWill env option s) OPT_COMPRESS2 = hisOptionState s OPT_COMPRESS2"
  "inflateTelnet (commandWill env option s) = inflateTelnet s"
  "recvdCompress (commandWill env option s) = recvdCompress s"
  by (simp_all add: commandWill_def Let_def sendTelnetOption_def sendRawData_def
      receiveEchoMode_def sendTerminalTypeRequest_def)

lemma plain_wont:
  "option \<noteq> OPT_COMPRESS2 \<Longrightarrow>
   hisOptionState (commandWont option s) OPT_COMPRESS2 = hisOptionState s OPT_COMPRESS2"
  "inflateTelnet (commandWont option s) = inflateTelnet s"
  "recvdCompress (commandWont option s) = recvdCompress s"
  by (simp_all add: commandWont_def Let_def sendTelnetOption_def sendRawData_def
      receiveEchoMode_def)

lemma plain_do:
  "hisOptionState (commandDo env option s) = hisOptionState s"
  "inflateTelnet (commandDo env option s) = inflateTelnet s"
  "recvdCompress (commandDo env option s) = recvdCompress s"
  by (simp_all add: commandDo_def doReply_def doFollowUp_def Let_def sendTelnetOption_def
      sendWindowSizeChanged_def sendCharsetRequest_def onGmcpEnabled_def sendRawData_def)

lemma plain_dont:
  "hisOptionState (commandDont option s) = hisOptionState s"
  "inflateTelnet (commandDont option s) = inflateTelnet s"
  "recvdCompress (commandDont option s) = recvdCompress s"
  by (simp_all add: commandDont_def Let_def sendTelnetOption_def sendRawData_def)

lemma plain_command:
  "c \<noteq> OPT_COMPRESS2 \<Longrightarrow>
   hisOptionState (stateOf (processTelnetCommand env (cb @ [c]) s)) OPT_COMPRESS2 =
     hisOptionState s OPT_COMPRESS2"
  "inflateTelnet (stateOf (processTelnetCommand env b s)) = inflateTelnet s"
  "recvdCompress (stateOf (processTelnetCommand env b s)) = recvdCompress s"
  by (auto simp add: processTelnetCommand_def plain_will plain_wont plain_do plain_dont
      sendAreYouThere_def sendRawData_def append_eq_Cons_conv split: list.splits)

lemma plain_charsetRequestLoop:
  "hisOptionState (snd (charsetRequestLoop cs s)) = hisOptionState s"
  "inflateTelnet (snd (charsetRequestLoop cs s)) = inflateTelnet s"
  "recvdCompress (snd (charsetRequestLoop cs s)) = recvdCompress s"
  by (induction cs arbitrary: s) (simp_all add: sendCharsetAccepted_def sendRawData_def)

lemma plain_subneg:
  "hisOptionState (stateOf (processTelnetSubnegotiation env payload s)) = hisOptionState s"
  "inflateTelnet (stateOf (processTelnetSubnegotiation env payload s)) = inflateTelnet s"
  "\<not> hisOptionState s OPT_COMPRESS2 \<Longrightarrow>
   recvdCompress (stateOf (processTelnetSubnegotiation env payload s)) = recvdCompress s"
  by (simp_all add: processTelnetSubnegotiation_def subnegCharset_def Let_def case_prod_beta
      plain_charsetRequestLoop sender_defs split: option.splits)

lemma plainMode_emitCommand:
  "plainMode s \<Longrightarrow> c \<noteq> OPT_COMPRESS2 \<Longrightarrow> commandBuffer s = cb @ [c] \<Longrightarrow>
   plainMode (fst (stateOf (emitCommand (processTelnetCommand env) s cl)))"
  using plain_command(1) [of c env cb s] plain_command(2,3) [of env "cb @ [c]" s]
  by (cases "processTelnetCommand env (cb @ [c]) s")
     (simp_all add: emitCommand_def plainMode_def)

lemma plainMode_emitSubneg:
  "plainMode s \<Longrightarrow>
   plainMode (fst (stateOf (emitSubneg (processTelnetSubnegotiation env) s cl)))"
  using plain_subneg(1,2) [of env "subnegBuffer s" s] plain_subneg(3) [of s env "subnegBuffer s"]
  by (cases "processTelnetSubnegotiation env (subnegBuffer s) s")
     (simp_all add: emitSubneg_def plainMode_def)

lemma plainMode_fsm_fields [simp]:
  "plainMode (s\<lparr>state := st\<rparr>) = plainMode s"
  "plainMode (s\<lparr>commandBuffer := cb\<rparr>) = plainMode s"
  "plainMode (s\<lparr>subnegBuffer := sb\<rparr>) = plainMode s"
  by (simp_all add: plainMode_def)

lemma plainMode_step:
  "plainMode s \<Longrightarrow> c \<noteq> OPT_COMPRESS2 \<Longrightarrow>
   plainMode (fst (stateOf (onReadInternal2 env c (s, cl))))"
  by (cases "state s")
     (simp_all add: onReadInternal2_def byteFSM_def plainMode_emitCommand plainMode_emitSubneg)

lemma plainMode_flushOnGA: "plainMode (fst sc) \<Longrightarrow> plainMode (fst (flushOnGA sc))"
  by (cases sc) (simp add: flushOnGA_def sendToMapper_def plainMode_def)

lemma zlib_free_supportedByWill:
  "supportedByWill
     (env\<lparr>z_inflate := zi, z_inflateEnd := ze, z_inflateInit := zn, z_msg := zm\<rparr>) =
   supportedByWill env"
  by (intro ext) (simp add: supportedByWill_def)

lemma zlib_free_commandWill:
  "commandWill
     (env\<lparr>z_inflate := zi, z_inflateEnd := ze, z_inflateInit := zn, z_msg := zm\<rparr>) =
   commandWill env"
  by (intro ext) (simp add: commandWill_def zlib_free_supportedByWill cong: if_cong)

lemma zlib_free_commandDo:
  "commandDo
     (env\<lparr>z_inflate := zi, z_inflateEnd := ze, z_inflateInit := zn, z_msg := zm\<rparr>) =
   commandDo env"
  by (intro ext) (simp add: commandDo_def doFollowUp_def Let_def split del: if_split cong: if_cong)

lemma zlib_free_command:
  "processTelnetCommand
     (env\<lparr>z_inflate := zi, z_inflateEnd := ze, z_inflateInit := zn, z_msg := zm\<rparr>) b s =
   processTelnetCommand env b s"
  by (simp add: processTelnetCommand_def zlib_free_commandWill zlib_free_commandDo
      cong: if_cong list.case_cong)

lemma zlib_free_subneg:
  "processTelnetSubnegotiation
     (env\<lparr>z_inflate := zi, z_inflateEnd := ze, z_inflateInit := zn, z_msg := zm\<rparr>) payload s =
   processTelnetSubnegotiation env payload s"
  by (simp add: processTelnetSubnegotiation_def Let_def split del: if_split
      cong: if_cong option.case_cong)

lemma zlib_free_step:
  "onReadInternal2
     (env\<lparr>z_inflate := zi, z_inflateEnd := ze, z_inflateInit := zn, z_msg := zm\<rparr>) c sc =
   onReadInternal2 env c sc"
proof -
  have pc: "processTelnetCommand
     (env\<lparr>z_inflate := zi, z_inflateEnd := ze, z_inflateInit := zn, z_msg := zm\<rparr>) =
     processTelnetCommand env"
    by (intro ext) (rule zlib_free_command)
  have ps: "processTelnetSubnegotiation
     (env\<lparr>z_inflate := zi, z_inflateEnd := ze, z_inflateInit := zn, z_msg := zm\<rparr>) =
     processTelnetSubnegotiation env"
    by (intro ext) (rule zlib_free_subneg)
  show ?thesis unfolding onReadInternal2_def pc ps ..
qed

lemma plainMode_readLoop:
  "plainMode s \<Longrightarrow> OPT_COMPRESS2 \<notin> set data \<Longrightarrow> length data \<le> n \<Longrightarrow>
   readLoop n env data (s, cl) \<noteq> None \<and>
   readLoop n (env\<lparr>z_inflate := zi, z_inflateEnd := ze, z_inflateInit := zn, z_msg := zm\<rparr>)
     data (s, cl) = readLoop n env data (s, cl)"
proof (induction data arbitrary: n s cl)
  case Nil
  show ?case by simp
next
  case (Cons c rest)
  from Cons.prems(3) obtain m where n: "n = Suc m" and m: "length rest \<le> m"
    by (cases n) auto
  from Cons.prems(2) have c: "c \<noteq> OPT_COMPRESS2" and rest: "OPT_COMPRESS2 \<notin> set rest"
    by auto
  note st = plainMode_step [OF Cons.prems(1) c, of env cl]
  from Cons.prems(1) have ni: "\<not> inflateTelnet s" by (simp add: plainMode_def)
  show ?case
  proof (cases "onReadInternal2 env c (s, cl)")
    case (Return u sc1)
    obtain s1 cl1 where sc1: "sc1 = (s1, cl1)" by (cases sc1)
    from st Return sc1 have p1: "plainMode s1" by simp
    then have nrc: "\<not> recvdCompress s1" by (simp add: plainMode_def)
    obtain s2 cl2 where f: "flushOnGA sc1 = (s2, cl2)" by (cases "flushOnGA sc1")
    from plainMode_flushOnGA [of sc1] p1 sc1 f have p2: "plainMode s2" by simp
    from Cons.IH [OF p2 rest m, of cl2] ni Return sc1 nrc f
    show ?thesis by (simp add: n zlib_free_step)
  next
    case (Throw e sc1)
    with ni show ?thesis by (simp add: n zlib_free_step)
  qed
qed

lemma plainMode_onReadInternal:
  "plainMode s \<Longrightarrow> OPT_COMPRESS2 \<notin> set data \<Longrightarrow> length data \<le> n \<Longrightarrow>
   onReadInternal n env data s \<noteq> None \<and>
   onReadInternal n (env\<lparr>z_inflate := zi, z_inflateEnd := ze, z_inflateInit := zn, z_msg := zm\<rparr>)
     data s = onReadInternal n env data s"
  using plainMode_readLoop [where cl = "[]" and s = s and data = data and n = n and env = env
      and zi = zi and ze = ze and zn = zn and zm = zm]
  by (auto simp add: onReadInternal_def split: option.splits outcome.splits)

text \<open>
  What the four codes do, whatever zlib is: the stream is ended, the three flags are
  cleared, and the call ends in \<open>std::runtime_error(stream.msg)\<close>; nothing else of the
  engine changes. In the state after it the engine is in plain mode.
\<close>

lemma inflate_error_state:
  assumes r: "ret (z_inflate env (stream s) input) = Z_NEED_DICT
     \<or> ret (z_inflate env (stream s) input) = Z_DATA_ERROR
     \<or> ret (z_inflate env (stream s) input) = Z_MEM_ERROR
     \<or> ret (z_inflate env (stream s) input) = Z_STREAM_END"
    and z1: "z1 = z_inflateEnd env (next_stream (z_inflate env (stream s) input))"
    and s1: "s1 = s\<lparr>stream := z1, inflateTelnet := False, recvdCompress := False,
          hisOptionState := (hisOptionState s)(OPT_COMPRESS2 := False)\<rparr>"
  shows "inflateLoop (Suc n) env input (s, cleanData) =
           Some (Throw (runtime_error (z_msg env z1)) (s1, cleanData))"
    and "inflateTelnet s \<Longrightarrow> \<not> NO_ZLIB env \<Longrightarrow> input \<noteq> [] \<Longrightarrow>
         onReadInternal (Suc (Suc n)) env input s = Some (Throw (runtime_error (z_msg env z1)) s1)"
    and "plainMode s1"
proof -
  have loop: "inflateLoop (Suc n) env input (s, cleanData) =
     Some (Throw (runtime_error (z_msg env z1)) (s1, cleanData))" for cleanData
    using inflateLoop_error [OF r] by (simp add: z1 s1)
  from loop show "inflateLoop (Suc n) env input (s, cleanData) =
     Some (Throw (runtime_error (z_msg env z1)) (s1, cleanData))" .
  show "onReadInternal (Suc (Suc n)) env input s = Some (Throw (runtime_error (z_msg env z1)) s1)"
    if "inflateTelnet s" "\<not> NO_ZLIB env" "input \<noteq> []"
  proof -
    from that(3) obtain c rest where i: "input = c # rest" by (cases input) auto
    show ?thesis
      using that(1,2) loop [of "[]"]
      by (simp add: onReadInternal_def onReadInternalInflate_def i del: inflateLoop.simps)
  qed
  show "plainMode s1" by (simp add: s1 plainMode_def)
qed

lemma inflateLoop_error_numeral:
  "ret (z_inflate env (stream s) input) = Z_NEED_DICT
     \<or> ret (z_inflate env (stream s) input) = Z_DATA_ERROR
     \<or> ret (z_inflate env (stream s) input) = Z_MEM_ERROR
     \<or> ret (z_inflate env (stream s) input) = Z_STREAM_END \<Longrightarrow>
   inflateLoop (numeral k) env input (s, cleanData) =
     Some (Throw
       (runtime_error (z_msg env (z_inflateEnd env (next_stream (z_inflate env (stream s) input)))))
       (s\<lparr>stream := z_inflateEnd env (next_stream (z_inflate env (stream s) input)),
          inflateTelnet := False, recvdCompress := False,
          hisOptionState := (hisOptionState s)(OPT_COMPRESS2 := False)\<rparr>, cleanData))"
  unfolding numeral_eq_Suc by (rule inflateLoop_error)

text \<open>
  C7: the end of a compressed stream. The peer turns compression on (\<open>IAC WILL COMPRESS2\<close>,
  then \<open>IAC SB COMPRESS2 IAC SE\<close>) and sends a complete zlib stream, here the empty one;
  \<open>inflate\<close> returns \<open>Z_STREAM_END\<close> and has set no message. The engine ends the zlib
  stream and clears \<open>inflateTelnet\<close>, \<open>recvdCompress\<close> and \<open>hisOptionState[COMPRESS2]\<close>, but
  the error it raises carries no message of zlib: \<open>std::runtime_error\<close> is built from the
  null \<open>stream.msg\<close>. On a data error, where zlib has set its message, the same call ends
  in the runtime error with that message. In both cases the engine is left in plain
  mode, and the next input goes through the byte state machine.
\<close>

theorem stream_end_raises_no_message:
  "onReadInternal 16 envStreamEnd
       [255, 251, 86, 255, 250, 86, 255, 240, 120, 156, 3, 0, 0, 0, 0, 1] engine0 =
     Some (Throw NullMessage
       (engine0\<lparr>heAnnouncedState := (heAnnouncedState engine0)(OPT_COMPRESS2 := True),
                events := [SendRawData [255, 253, 86]]\<rparr>)) \<and>
   onReadInternal 16 envDataError
       [255, 251, 86, 255, 250, 86, 255, 240, 120, 156, 3, 0, 0, 0, 0, 1] engine0 =
     Some (Throw (RuntimeError ''invalid block type'')
       (engine0\<lparr>heAnnouncedState := (heAnnouncedState engine0)(OPT_COMPRESS2 := True),
                events := [SendRawData [255, 253, 86]]\<rparr>)) \<and>
   plainMode
       (engine0\<lparr>heAnnouncedState := (heAnnouncedState engine0)(OPT_COMPRESS2 := True),
                events := [SendRawData [255, 253, 86]]\<rparr>) \<and>
   onReadInternal 2 envStreamEnd [104, 105]
       (engine0\<lparr>heAnnouncedState := (heAnnouncedState engine0)(OPT_COMPRESS2 := True),
                events := [SendRawData [255, 253, 86]]\<rparr>) =
     Some (Return ()
       (engine0\<lparr>heAnnouncedState := (heAnnouncedState engine0)(OPT_COMPRESS2 := True),
                events := [SendRawData [255, 253, 86], SendToMapper [104, 105] False]\<rparr>))"
proof -
  have stream_end: "onReadInternal 16 envStreamEnd
       [255, 251, 86, 255, 250, 86, 255, 240, 120, 156, 3, 0, 0, 0, 0, 1] engine0 =
     Some (Throw NullMessage
       (engine0\<lparr>heAnnouncedState := (heAnnouncedState engine0)(OPT_COMPRESS2 := True),
                events := [SendRawData [255, 253, 86]]\<rparr>))"
    apply (simp add: readLoop_numeral inflateLoop_error_numeral engine0_fields fsm_defs
        processTelnetCommand_def commandWill_def supportedByWill_def
        processTelnetSubnegotiation_def sender_defs byteAt_def initCompress_def
        onReadInternalInflate_def envStreamEnd_def env0_def del: inflateLoop.simps)
    apply (rule AbstractTelnet.equality; simp add: engine0_fields fun_eq_iff)
    done
  have data_error: "onReadInternal 16 envDataError
       [255, 251, 86, 255, 250, 86, 255, 240, 120, 156, 3, 0, 0, 0, 0, 1] engine0 =
     Some (Throw (RuntimeError ''invalid block type'')
       (engine0\<lparr>heAnnouncedState := (heAnnouncedState engine0)(OPT_COMPRESS2 := True),
                events := [SendRawData [255, 253, 86]]\<rparr>))"
    apply (simp add: readLoop_numeral inflateLoop_error_numeral engine0_fields fsm_defs
        processTelnetCommand_def commandWill_def supportedByWill_def
        processTelnetSubnegotiation_def sender_defs byteAt_def initCompress_def
        onReadInternalInflate_def envDataError_def env0_def del: inflateLoop.simps)
    apply (rule AbstractTelnet.equality; simp add: engine0_fields fun_eq_iff)
    done
  have plain: "plainMode
       (engine0\<lparr>heAnnouncedState := (heAnnouncedState engine0)(OPT_COMPRESS2 := True),
                events := [SendRawData [255, 253, 86]]\<rparr>)"
    by (simp add: plainMode_def engine0_fields)
  have later: "onReadInternal 2 envStreamEnd [104, 105]
       (engine0\<lparr>heAnnouncedState := (heAnnouncedState engine0)(OPT_COMPRESS2 := True),
                events := [SendRawData [255, 253, 86]]\<rparr>) =
     Some (Return ()
       (engine0\<lparr>heAnnouncedState := (heAnnouncedState engine0)(OPT_COMPRESS2 := True),
                events := [SendRawData [255, 253, 86], SendToMapper [104, 105] False]\<rparr>))"
    by (simp add: readLoop_numeral engine0_fields fsm_defs sender_defs)
  from stream_end data_error plain later show ?thesis by (intro conjI)
qed

section \<open>Subnegotiations on the wire\<close>

lemma lo_byte:
  "(ucast (word_of_int m :: 16 word) :: 8 word) = word_of_int (m mod 256)"
proof -
  have t: "m mod 256 = take_bit 8 m"
    by (simp add: take_bit_eq_mod)
  show ?thesis
    unfolding t by (rule bit_word_eqI) (auto simp add: bit_simps)
qed

lemma hi_byte:
  "(ucast (drop_bit 8 (word_of_int m :: 16 word)) :: 8 word) = word_of_int (m div 256)"
proof -
  have d: "m div 256 = drop_bit 8 m"
    by (simp add: drop_bit_eq_div)
  show ?thesis
    unfolding d by (rule bit_word_eqI) (auto simp add: bit_simps)
qed

lemma addEscaped_doubleIAC: "addEscaped b s = s @ doubleIAC [b]"
  by (simp add: addEscaped_def addRaw_def)

lemma addClampedTwoByteEscaped_twoBytes:
  "addClampedTwoByteEscaped n s = s @ doubleIAC (twoBytes n)"
  by (simp add: addClampedTwoByteEscaped_def addTwoByteEscaped_def twoBytes_def clamp_def
      addEscaped_doubleIAC lo_byte hi_byte Let_def)

lemma foldl_optionStatusEntry:
  "foldl (optionStatusEntry s) buf xs =
     buf @ concat (map (\<lambda>i. (if myOptionState s (of_nat i) then [TN_WILL, of_nat i] else [])
                       @ (if hisOptionState s (of_nat i) then [TN_DO, of_nat i] else [])) xs)"
  by (induction xs arbitrary: buf) (simp_all add: optionStatusEntry_def)

lemma of_nat_byte_255: "i < 256 \<Longrightarrow> (of_nat i :: byte) = 255 \<Longrightarrow> i = 255"
proof -
  assume i: "i < 256" and e: "(of_nat i :: byte) = 255"
  from e have "unat (of_nat i :: byte) = unat (255 :: byte)"
    by simp
  with i show ?thesis
    by (simp add: unat_of_nat)
qed

lemma statusEntries_no_IAC: "noExopl s \<Longrightarrow> TN_IAC \<notin> set (statusEntries s)"
  by (auto simp add: statusEntries_def noExopl_def split: if_splits dest: sym)

lemma sendOptionStatus_frame:
  "noExopl s \<Longrightarrow>
   sendOptionStatus s = sendRawData (subnegFrame OPT_STATUS (TNSB_IS # statusEntries s)) s"
  by (simp add: sendOptionStatus_def foldl_optionStatusEntry subnegFrame_def
      doubleIAC_no_IAC [OF statusEntries_no_IAC] statusEntries_def [symmetric])

lemma sender_frames:
  "sendWindowSizeChanged x y s = sendRawData (subnegFrame OPT_NAWS (twoBytes x @ twoBytes y)) s"
  "sendCharsetRequest cs s =
     sendRawData (subnegFrame OPT_CHARSET (TNSB_REQUEST # concat (map (\<lambda>c. 59 # c) cs))) s"
  "sendCharsetAccepted cset s = sendRawData (subnegFrame OPT_CHARSET (TNSB_ACCEPTED # cset)) s"
  "sendCharsetRejected s = sendRawData (subnegFrame OPT_CHARSET [TNSB_REJECTED]) s"
  "sendTerminalType tt s = sendRawData (subnegFrame OPT_TERMINAL_TYPE (TNSB_IS # tt)) s"
  "sendTerminalTypeRequest s = sendRawData (subnegFrame OPT_TERMINAL_TYPE [TNSB_SEND]) s"
  "sendGmcpMessage payload s = sendRawData (subnegFrame OPT_GMCP payload) s"
  by (simp_all add: sendWindowSizeChanged_def sendCharsetRequest_def sendCharsetAccepted_def
      sendCharsetRejected_def sendTerminalType_def sendTerminalTypeRequest_def
      sendGmcpMessage_def subnegFrame_def addSubnegBegin_def addSubnegEnd_def addCommand_def
      addRaw_def addEscaped_doubleIAC addEscapedBytes_doubleIAC charsetRequestBody_eq
      addClampedTwoByteEscaped_twoBytes doubleIAC_append)

text \<open>Nothing the peer sends enables option 255: no option the engine supports is 255.\<close>

lemma noExopl_will: "noExopl s \<Longrightarrow> noExopl (commandWill env option s)"
  by (auto simp add: commandWill_def noExopl_def supportedByWill_def sender_defs Let_def)

lemma noExopl_wont: "noExopl s \<Longrightarrow> noExopl (commandWont option s)"
  by (auto simp add: commandWont_def noExopl_def sender_defs Let_def)

lemma noExopl_do: "noExopl s \<Longrightarrow> noExopl (commandDo env option s)"
  by (auto simp add: commandDo_def doReply_def doFollowUp_def noExopl_def supportedByDo_def sender_defs Let_def)

lemma noExopl_dont: "noExopl s \<Longrightarrow> noExopl (commandDont option s)"
  by (auto simp add: commandDont_def noExopl_def sender_defs Let_def)

lemma noExopl_events [simp]: "noExopl (s\<lparr>events := E\<rparr>) = noExopl s"
  by (simp add: noExopl_def)

lemma noExopl_command:
  "noExopl s \<Longrightarrow> noExopl (stateOf (processTelnetCommand env b s))"
  by (auto simp add: processTelnetCommand_def noExopl_will noExopl_wont noExopl_do noExopl_dont
      sendAreYouThere_def sendRawData_def split: list.splits)
     (simp_all add: noExopl_def)

lemma noExopl_charsetRequestLoop:
  "noExopl s \<Longrightarrow> noExopl (snd (charsetRequestLoop cs s))"
  by (induction cs arbitrary: s) (simp_all add: sendCharsetAccepted_def sendRawData_def noExopl_def)

lemma noExopl_subnegCharset:
  "noExopl s \<Longrightarrow> noExopl (stateOf (subnegCharset payload s))"
  using noExopl_charsetRequestLoop [of s "split_sep (byteAt payload 2) (drop 3 payload)"]
  by (auto simp add: subnegCharset_def Let_def sendCharsetRejected_def sendRawData_def
      split: prod.splits) (simp_all add: noExopl_def)

lemma noExopl_subneg:
  "noExopl s \<Longrightarrow> noExopl (stateOf (processTelnetSubnegotiation env payload s))"
  by (auto simp add: processTelnetSubnegotiation_def Let_def noExopl_subnegCharset sender_defs
      split: option.splits) (simp_all add: noExopl_def)

lemma noExopl_emitCommand:
  "noExopl s \<Longrightarrow> noExopl (fst (stateOf (emitCommand (processTelnetCommand env) s cl)))"
  using noExopl_command [of s env "commandBuffer s"]
  by (auto simp add: emitCommand_def noExopl_def split: outcome.splits)

lemma noExopl_emitSubneg:
  "noExopl s \<Longrightarrow> noExopl (fst (stateOf (emitSubneg (processTelnetSubnegotiation env) s cl)))"
  using noExopl_subneg [of s env "subnegBuffer s"]
  by (auto simp add: emitSubneg_def noExopl_def split: outcome.splits)

lemma noExopl_fsm_fields [simp]:
  "noExopl (s\<lparr>state := st\<rparr>) = noExopl s"
  "noExopl (s\<lparr>commandBuffer := cb\<rparr>) = noExopl s"
  "noExopl (s\<lparr>subnegBuffer := sb\<rparr>) = noExopl s"
  "noExopl (s\<lparr>recvdGA := g\<rparr>) = noExopl s"
  "noExopl (s\<lparr>recvdCompress := rc\<rparr>) = noExopl s"
  "noExopl (s\<lparr>inflateTelnet := it\<rparr>) = noExopl s"
  "noExopl (s\<lparr>stream := z\<rparr>) = noExopl s"
  by (simp_all add: noExopl_def)

lemma noExopl_step:
  "noExopl (fst sc) \<Longrightarrow> noExopl (fst (stateOf (onReadInternal2 env c sc)))"
  by (cases sc; cases "state (fst sc)")
     (simp_all add: onReadInternal2_def byteFSM_def noExopl_emitCommand noExopl_emitSubneg)

lemma noExopl_flushOnGA: "noExopl (fst sc) \<Longrightarrow> noExopl (fst (flushOnGA sc))"
  by (cases sc) (simp add: flushOnGA_def sendToMapper_def)

lemma noExopl_resetCompress: "noExopl s \<Longrightarrow> noExopl (resetCompress s)"
  by (simp add: resetCompress_def noExopl_def)

lemma noExopl_initCompress: "noExopl s \<Longrightarrow> noExopl (stateOf (initCompress env s))"
  by (simp add: initCompress_def Let_def split: prod.splits)

lemma noExopl_feedInflated:
  "noExopl (fst sc) \<Longrightarrow> noExopl (fst (stateOf (feedInflated env cs sc)))"
proof (induction cs arbitrary: sc)
  case Nil
  then show ?case by simp
next
  case (Cons c cs)
  show ?case
  proof (cases "onReadInternal2 env c sc")
    case (Return u sc1)
    with noExopl_step [OF Cons.prems, of env c] have "noExopl (fst (flushOnGA sc1))"
      by (simp add: noExopl_flushOnGA)
    from Cons.IH [OF this] Return show ?thesis by simp
  next
    case (Throw e sc1)
    with noExopl_step [OF Cons.prems, of env c] show ?thesis by simp
  qed
qed

lemma noExopl_inflateLoop:
  "noExopl (fst sc) \<Longrightarrow> inflateLoop n env input sc = Some r \<Longrightarrow> noExopl (fst (stateOf r))"
proof (induction n arbitrary: input sc r)
  case 0
  then show ?case by simp
next
  case (Suc n)
  obtain s cl where sc: "sc = (s, cl)" by (cases sc)
  let ?r = "z_inflate env (stream s) input"
  let ?s1 = "s\<lparr>stream := next_stream ?r\<rparr>"
  have s1: "noExopl (fst (?s1, cl))" using Suc.prems(1) by (simp add: sc)
  note fed = noExopl_feedInflated [OF s1, of env "take CHUNK (produced ?r)"]
  from Suc.prems(2) fed Suc.IH Suc.prems(1) show ?case
    by (auto simp add: sc Let_def noExopl_resetCompress split: if_splits outcome.splits)
qed

lemma noExopl_readLoop:
  "noExopl (fst sc) \<Longrightarrow> readLoop n env data sc = Some r \<Longrightarrow> noExopl (fst (stateOf r))"
proof (induction n env data sc arbitrary: r rule: readLoop.induct)
  case (1 n env sc)
  then show ?case by auto
next
  case (2 env c rest sc)
  then show ?case by simp
next
  case (3 n env c rest sc)
  obtain s cl where sc: "sc = (s, cl)" by (cases sc)
  show ?case
  proof (cases "inflateTelnet s")
    case True
    with "3.prems" obtain o1 where o1: "onReadInternalInflate n env (c # rest) sc = Some o1"
      by (auto simp add: sc split: option.splits)
    then have n1: "noExopl (fst (stateOf o1))"
      using noExopl_inflateLoop [OF "3.prems"(1), of n env "c # rest" o1] "3.prems"(1)
      by (auto simp add: onReadInternalInflate_def split: if_splits)
    show ?thesis
    proof (cases o1)
      case (Return remaining sc1)
      with "3.prems" True o1
      have "readLoop n env (drop (length (c # rest) - remaining) (c # rest)) sc1 = Some r"
        by (simp add: sc)
      from "3.IH"(1) [OF sc [symmetric] True o1 Return _ this] n1 Return
      show ?thesis by simp
    next
      case (Throw e sc1)
      with "3.prems" True o1 n1 show ?thesis by (auto simp add: sc)
    qed
  next
    case False
    note st = noExopl_step [OF "3.prems"(1), of env c]
    show ?thesis
    proof (cases "onReadInternal2 env c sc")
      case (Return u sc1)
      obtain s1 cl1 where sc1: "sc1 = (s1, cl1)" by (cases sc1)
      from st Return sc1 have n1: "noExopl s1" by simp
      show ?thesis
      proof (cases "recvdCompress s1")
        case rc: True
        note ic = noExopl_initCompress [OF n1, of env]
        show ?thesis
        proof (cases "initCompress env s1")
          case r2: (Return u2 s2)
          with "3.prems" False Return sc1 rc
          have "readLoop n env rest (s2\<lparr>recvdCompress := False\<rparr>, cl1) = Some r"
            by (simp add: sc)
          from "3.IH"(2) [OF sc [symmetric] False Return sc1 [symmetric] rc r2 _ this] ic r2
          show ?thesis by simp
        next
          case (Throw e s2)
          with "3.prems" False Return sc1 rc ic show ?thesis by (auto simp add: sc)
        qed
      next
        case nrc: False
        with "3.prems" False Return sc1
        have "readLoop n env rest (flushOnGA sc1) = Some r"
          by (simp add: sc)
        from "3.IH"(3) [OF sc [symmetric] False Return sc1 [symmetric] nrc _ this]
          noExopl_flushOnGA [of sc1] n1 sc1
        show ?thesis by simp
      qed
    next
      case (Throw e sc1)
      with "3.prems" False st show ?thesis by (auto simp add: sc)
    qed
  qed
qed

lemma noExopl_onReadInternal:
  "noExopl s \<Longrightarrow> onReadInternal n env data s = Some r \<Longrightarrow> noExopl (stateOf r)"
  using noExopl_readLoop [of "(s, [])" n env data]
  by (auto simp add: onReadInternal_def sendToMapper_def split: if_splits option.splits outcome.splits)

lemma noExopl_reset: "noExopl (reset s)"
  by (simp add: noExopl_def reset_fields)

lemma noExopl_receiveGmcpModule:
  "noExopl s \<Longrightarrow> noExopl (stateOf (receiveGmcpModule m b s))"
  by (simp add: receiveGmcpModule_def noExopl_def Let_def)

text \<open>
  The STATUS IS reply is written without escaping. It is the frame with doubled
  parameters exactly when option 255 is enabled on neither side.
\<close>

lemma sendOptionStatus_raw:
  "sendOptionStatus s =
     sendRawData ([TN_IAC, TN_SB, OPT_STATUS, TNSB_IS] @ statusEntries s @ [TN_IAC, TN_SE]) s"
  by (simp add: sendOptionStatus_def foldl_optionStatusEntry statusEntries_def [symmetric])

lemma length_doubleIAC: "length (doubleIAC cs) = length cs + length (filter (\<lambda>c. c = TN_IAC) cs)"
  by (induction cs) auto

lemma doubleIAC_longer: "TN_IAC \<in> set cs \<Longrightarrow> doubleIAC cs \<noteq> cs"
proof
  assume i: "TN_IAC \<in> set cs" and e: "doubleIAC cs = cs"
  from i have "filter (\<lambda>c. c = TN_IAC) cs \<noteq> []"
    by (simp add: filter_empty_conv)
  then have "length cs < length (doubleIAC cs)"
    by (simp add: length_doubleIAC)
  with e show False by simp
qed

lemma statusEntries_IAC: "\<not> noExopl s \<Longrightarrow> TN_IAC \<in> set (statusEntries s)"
proof -
  assume "\<not> noExopl s"
  then have "myOptionState s (of_nat 255) \<or> hisOptionState s (of_nat 255)"
    by (simp add: noExopl_def)
  then have "TN_IAC \<in> set ((if myOptionState s (of_nat 255) then [TN_WILL, of_nat 255] else [])
                       @ (if hisOptionState s (of_nat 255) then [TN_DO, of_nat 255] else []))"
    by auto
  moreover have "(255 :: nat) \<in> set [0..<NUM_OPTS]"
    by simp
  ultimately show ?thesis
    unfolding statusEntries_def set_concat set_map by blast
qed

lemma sendOptionStatus_frame_iff:
  "sendOptionStatus s = sendRawData (subnegFrame OPT_STATUS (TNSB_IS # statusEntries s)) s
     \<longleftrightarrow> noExopl s"
proof
  assume "noExopl s"
  then show "sendOptionStatus s = sendRawData (subnegFrame OPT_STATUS (TNSB_IS # statusEntries s)) s"
    by (rule sendOptionStatus_frame)
next
  assume e: "sendOptionStatus s = sendRawData (subnegFrame OPT_STATUS (TNSB_IS # statusEntries s)) s"
  show "noExopl s"
  proof (rule ccontr)
    assume "\<not> noExopl s"
    from doubleIAC_longer [OF statusEntries_IAC [OF this]]
    have "doubleIAC (statusEntries s) \<noteq> statusEntries s" .
    moreover from e have "events (sendOptionStatus s) =
        events (sendRawData (subnegFrame OPT_STATUS (TNSB_IS # statusEntries s)) s)"
      by simp
    then have "doubleIAC (statusEntries s) = statusEntries s"
      by (simp add: sendOptionStatus_raw sendRawData_def subnegFrame_def)
    ultimately show False by simp
  qed
qed

lemma statusEntries_exopl:
  assumes my: "\<And>opt. myOptionState s opt = (opt = 255)" and his: "\<And>opt. \<not> hisOptionState s opt"
  shows "statusEntries s = [TN_WILL, 255]"
proof -
  have split: "[0..<NUM_OPTS] = [0..<255] @ [255]"
    using upt_Suc_append [of 0 255] by simp
  have "concat (map (\<lambda>i. (if myOptionState s (of_nat i) then [TN_WILL, of_nat i] else [])
                       @ (if hisOptionState s (of_nat i) then [TN_DO, of_nat i] else []))
                 [0..<255]) = []"
  proof -
    have "(of_nat i :: byte) \<noteq> 255" if "i < 255" for i
      using of_nat_byte_255 [of i] that by auto
    then show ?thesis by (simp add: my his)
  qed
  then show ?thesis
    unfolding statusEntries_def split by (simp add: my his)
qed

text \<open>
  C9: the STATUS IS reply with option 255 enabled. \<open>requestTelnetOption\<close> enables any
  option it is given. After \<open>requestTelnetOption(TN_WILL, 255)\<close> on a fresh engine the
  peer's \<open>IAC SB STATUS SEND IAC SE\<close> is answered with \<open>IAC SB STATUS IS WILL 255 IAC SE\<close>,
  the \<open>0xFF\<close> of the entry written once, where the frame with every \<open>0xFF\<close> of the
  parameters doubled has it twice. The NAWS message, like every other subnegotiation
  the engine sends, doubles it: a window 255 columns wide goes out as \<open>0x00 0xFF 0xFF\<close>.
\<close>

theorem status_reply_writes_IAC_once:
  "onReadInternal 6 env0 [255, 250, 5, 1, 255, 240] (requestTelnetOption TN_WILL 255 engine0) =
     Some (Return ()
       (engine0\<lparr>myOptionState := (myOptionState engine0)(255 := True),
                announcedState := (announcedState engine0)(255 := True),
                events := [SendRawData [255, 251, 255],
                           SendRawData [255, 250, 5, 0, 251, 255, 255, 240]]\<rparr>)) \<and>
   subnegFrame OPT_STATUS (TNSB_IS # statusEntries (requestTelnetOption TN_WILL 255 engine0)) =
     [255, 250, 5, 0, 251, 255, 255, 255, 240] \<and>
   sendWindowSizeChanged 255 24 engine0 =
     sendRawData [255, 250, 31, 0, 255, 255, 0, 24, 255, 240] engine0"
proof -
  have run: "onReadInternal 6 env0 [255, 250, 5, 1, 255, 240]
       (requestTelnetOption TN_WILL 255 engine0) =
     Some (Return ()
       (engine0\<lparr>myOptionState := (myOptionState engine0)(255 := True),
                announcedState := (announcedState engine0)(255 := True),
                events := [SendRawData [255, 251, 255],
                           SendRawData [255, 250, 5, 0, 251, 255, 255, 240]]\<rparr>))"
    by (simp add: readLoop_numeral engine0_fields fsm_defs processTelnetSubnegotiation_def
        requestTelnetOption_def sendTelnetOption_def sendRawData_def sendOptionStatus_raw
        statusEntries_exopl byteAt_def)
  have frame: "subnegFrame OPT_STATUS
       (TNSB_IS # statusEntries (requestTelnetOption TN_WILL 255 engine0)) =
     [255, 250, 5, 0, 251, 255, 255, 255, 240]"
    by (simp add: subnegFrame_def statusEntries_exopl requestTelnetOption_def
        sendTelnetOption_def sendRawData_def engine0_fields)
  have naws: "sendWindowSizeChanged 255 24 engine0 =
     sendRawData [255, 250, 31, 0, 255, 255, 0, 24, 255, 240] engine0"
    by (simp add: sender_frames subnegFrame_def twoBytes_def)
  from run frame naws show ?thesis by (intro conjI)
qed

section \<open>The scratch buffers between two bytes\<close>

text \<open>
  What the table of section 4.1 assumes about the buffers holds from \<open>reset\<close> on and
  after every byte: the negotiator and the option handlers leave the state of the
  byte machine and the subneg buffer alone, and a command is handed over with two bytes
  from the states \<open>IAC\<close> and \<open>SUBNEG_IAC\<close> and with three from \<open>COMMAND\<close> and
  \<open>SUBNEG_COMMAND\<close>.
\<close>

lemma keeps_fsm_will:
  "state (commandWill env option s) = state s"
  "subnegBuffer (commandWill env option s) = subnegBuffer s"
  by (simp_all add: commandWill_def Let_def sendTelnetOption_def sendRawData_def
      receiveEchoMode_def sendTerminalTypeRequest_def)

lemma keeps_fsm_wont:
  "state (commandWont option s) = state s"
  "subnegBuffer (commandWont option s) = subnegBuffer s"
  by (simp_all add: commandWont_def Let_def sendTelnetOption_def sendRawData_def
      receiveEchoMode_def)

lemma keeps_fsm_do:
  "state (commandDo env option s) = state s"
  "subnegBuffer (commandDo env option s) = subnegBuffer s"
  by (simp_all add: commandDo_def doReply_def doFollowUp_def Let_def sendTelnetOption_def
      sendWindowSizeChanged_def sendCharsetRequest_def onGmcpEnabled_def sendRawData_def)

lemma keeps_fsm_dont:
  "state (commandDont option s) = state s"
  "subnegBuffer (commandDont option s) = subnegBuffer s"
  by (simp_all add: commandDont_def Let_def sendTelnetOption_def sendRawData_def)

lemma keeps_fsm_command:
  "state (stateOf (processTelnetCommand env b s)) = state s"
  "subnegBuffer (stateOf (processTelnetCommand env b s)) = subnegBuffer s"
  by (simp_all add: processTelnetCommand_def keeps_fsm_will keeps_fsm_wont keeps_fsm_do
      keeps_fsm_dont sendAreYouThere_def sendRawData_def split: list.splits)

lemma keeps_fsm_charsetRequestLoop:
  "state (snd (charsetRequestLoop cs s)) = state s"
  by (induction cs arbitrary: s) (simp_all add: sendCharsetAccepted_def sendRawData_def)

lemma keeps_fsm_subneg:
  "state (stateOf (processTelnetSubnegotiation env payload s)) = state s"
  by (simp add: processTelnetSubnegotiation_def subnegCharset_def Let_def case_prod_beta
      keeps_fsm_charsetRequestLoop sender_defs split: option.splits)

lemma buffersFit_reset: "buffersFit (reset s)"
  by (simp add: buffersFit_def reset_fields)

lemma buffersFit_emitCommand:
  "emitCommand (processTelnetCommand env) s cl = Return () (s1, cl1) \<Longrightarrow>
   state s1 = state s \<and> commandBuffer s1 = [] \<and> subnegBuffer s1 = subnegBuffer s"
  using keeps_fsm_command [of env "commandBuffer s" s]
  by (auto simp add: emitCommand_def split: outcome.splits)

lemma buffersFit_emitSubneg:
  "emitSubneg (processTelnetSubnegotiation env) s cl = Return () (s1, cl1) \<Longrightarrow>
   state s1 = state s \<and> commandBuffer s1 = [] \<and> subnegBuffer s1 = []"
  using keeps_fsm_subneg [of env "subnegBuffer s" s]
  by (auto simp add: emitSubneg_def split: outcome.splits)

lemma buffersFit_step:
  "buffersFit s \<Longrightarrow> onReadInternal2 env c (s, cl) = Return () (s1, cl1) \<Longrightarrow> buffersFit s1"
  by (cases "state s")
     (auto simp add: onReadInternal2_def byteFSM_def buffersFit_def negotiationBegun_def
        split: if_splits dest!: buffersFit_emitCommand buffersFit_emitSubneg)

lemma emitted_command_length:
  "buffersFit s \<Longrightarrow>
   snd (fsmTable (state s) c) = [PushCommand, EmitCommand] \<Longrightarrow>
   onReadInternal2 env c (s, cl) =
     emitCommand (processTelnetCommand env)
       (s\<lparr>state := fst (fsmTable (state s) c), commandBuffer := commandBuffer s @ [c]\<rparr>) cl \<and>
   length (commandBuffer s @ [c]) = (if state s = IAC \<or> state s = SUBNEG_IAC then 2 else 3)"
  by (cases "state s")
     (auto simp add: onReadInternal2_def byteFSM_def buffersFit_def negotiationBegun_def
        isNegotiation_def split: if_splits)

section \<open>Go-ahead only segments the clean bytes\<close>

lemma withoutFlushes_fields [simp]:
  "myOptionState (withoutFlushes s) = myOptionState s"
  "hisOptionState (withoutFlushes s) = hisOptionState s"
  "announcedState (withoutFlushes s) = announcedState s"
  "heAnnouncedState (withoutFlushes s) = heAnnouncedState s"
  "termType (withoutFlushes s) = termType s"
  "state (withoutFlushes s) = state s"
  "commandBuffer (withoutFlushes s) = commandBuffer s"
  "subnegBuffer (withoutFlushes s) = subnegBuffer s"
  "recvdGA (withoutFlushes s) = recvdGA s"
  "recvdCompress (withoutFlushes s) = recvdCompress s"
  "inflateTelnet (withoutFlushes s) = inflateTelnet s"
  "debug (withoutFlushes s) = debug s"
  "textCodec (withoutFlushes s) = textCodec s"
  "current_x (withoutFlushes s) = current_x s"
  "current_y (withoutFlushes s) = current_y s"
  "stream (withoutFlushes s) = stream s"
  by (simp_all add: withoutFlushes_def)

lemma withoutFlushes_updates [simp]:
  "withoutFlushes (s\<lparr>myOptionState := a\<rparr>) = (withoutFlushes s)\<lparr>myOptionState := a\<rparr>"
  "withoutFlushes (s\<lparr>hisOptionState := b\<rparr>) = (withoutFlushes s)\<lparr>hisOptionState := b\<rparr>"
  "withoutFlushes (s\<lparr>announcedState := c\<rparr>) = (withoutFlushes s)\<lparr>announcedState := c\<rparr>"
  "withoutFlushes (s\<lparr>heAnnouncedState := d\<rparr>) = (withoutFlushes s)\<lparr>heAnnouncedState := d\<rparr>"
  "withoutFlushes (s\<lparr>state := st\<rparr>) = (withoutFlushes s)\<lparr>state := st\<rparr>"
  "withoutFlushes (s\<lparr>commandBuffer := cb\<rparr>) = (withoutFlushes s)\<lparr>commandBuffer := cb\<rparr>"
  "withoutFlushes (s\<lparr>subnegBuffer := sb\<rparr>) = (withoutFlushes s)\<lparr>subnegBuffer := sb\<rparr>"
  "withoutFlushes (s\<lparr>recvdGA := g\<rparr>) = (withoutFlushes s)\<lparr>recvdGA := g\<rparr>"
  "withoutFlushes (s\<lparr>recvdCompress := rc\<rparr>) = (withoutFlushes s)\<lparr>recvdCompress := rc\<rparr>"
  "withoutFlushes (s\<lparr>inflateTelnet := it\<rparr>) = (withoutFlushes s)\<lparr>inflateTelnet := it\<rparr>"
  "withoutFlushes (s\<lparr>textCodec := tc\<rparr>) = (withoutFlushes s)\<lparr>textCodec := tc\<rparr>"
  "withoutFlushes (s\<lparr>stream := z\<rparr>) = (withoutFlushes s)\<lparr>stream := z\<rparr>"
  by (simp_all add: withoutFlushes_def)

lemma flushed_simps [simp]:
  "flushed [] = []"
  "flushed (xs @ ys) = flushed xs @ flushed ys"
  "flushed (e # xs) = mapperBytes e @ flushed xs"
  by (simp_all add: flushed_def)

text \<open>
  No function the byte state machine calls looks at the events or adds a flush: it does
  to the engine without its flushes what it does to the engine, and leaves the flushed
  bytes as they are.
\<close>

lemma quiet_raw:
  "sendRawData d (withoutFlushes s) = withoutFlushes (sendRawData d s)"
  "flushed (events (sendRawData d s)) = flushed (events s)"
  by (simp_all add: sendRawData_def withoutFlushes_def)

lemma quiet_hooks:
  "receiveEchoMode b (withoutFlushes s) = withoutFlushes (receiveEchoMode b s)"
  "flushed (events (receiveEchoMode b s)) = flushed (events s)"
  "receiveTerminalType tt (withoutFlushes s) = withoutFlushes (receiveTerminalType tt s)"
  "flushed (events (receiveTerminalType tt s)) = flushed (events s)"
  "receiveWindowSize x y (withoutFlushes s) = withoutFlushes (receiveWindowSize x y s)"
  "flushed (events (receiveWindowSize x y s)) = flushed (events s)"
  "receiveGmcpMessage msg (withoutFlushes s) = withoutFlushes (receiveGmcpMessage msg s)"
  "flushed (events (receiveGmcpMessage msg s)) = flushed (events s)"
  "onGmcpEnabled (withoutFlushes s) = withoutFlushes (onGmcpEnabled s)"
  "flushed (events (onGmcpEnabled s)) = flushed (events s)"
  by (simp_all add: receiveEchoMode_def receiveTerminalType_def receiveWindowSize_def
      receiveGmcpMessage_def onGmcpEnabled_def withoutFlushes_def)

lemma sendOptionStatus_bytes_wf:
  "foldl (optionStatusEntry (withoutFlushes s)) buf xs = foldl (optionStatusEntry s) buf xs"
  by (induction xs arbitrary: buf) (simp_all add: optionStatusEntry_def)

lemma quiet_will:
  "commandWill env option (withoutFlushes s) = withoutFlushes (commandWill env option s)"
  "flushed (events (commandWill env option s)) = flushed (events s)"
  by (simp_all add: commandWill_def Let_def sendTelnetOption_def sendRawData_def
      receiveEchoMode_def sendTerminalTypeRequest_def withoutFlushes_def)

lemma quiet_wont:
  "commandWont option (withoutFlushes s) = withoutFlushes (commandWont option s)"
  "flushed (events (commandWont option s)) = flushed (events s)"
  by (simp_all add: commandWont_def Let_def sendTelnetOption_def sendRawData_def
      receiveEchoMode_def withoutFlushes_def)

lemma quiet_doReply:
  "doReply option (withoutFlushes s) = withoutFlushes (doReply option s)"
  "flushed (events (doReply option s)) = flushed (events s)"
  by (simp_all add: doReply_def Let_def sendTelnetOption_def sendRawData_def withoutFlushes_def)

lemma quiet_doFollowUp:
  "doFollowUp env option (withoutFlushes s) = withoutFlushes (doFollowUp env option s)"
  "flushed (events (doFollowUp env option s)) = flushed (events s)"
  by (simp_all add: doFollowUp_def sendWindowSizeChanged_def sendCharsetRequest_def
      onGmcpEnabled_def sendRawData_def withoutFlushes_def)

lemma quiet_do:
  "commandDo env option (withoutFlushes s) = withoutFlushes (commandDo env option s)"
  "flushed (events (commandDo env option s)) = flushed (events s)"
  by (simp_all add: commandDo_def quiet_doReply quiet_doFollowUp)

lemma quiet_dont:
  "commandDont option (withoutFlushes s) = withoutFlushes (commandDont option s)"
  "flushed (events (commandDont option s)) = flushed (events s)"
  by (simp_all add: commandDont_def Let_def sendTelnetOption_def sendRawData_def
      withoutFlushes_def)

lemma quiet_command:
  "processTelnetCommand env b (withoutFlushes s) =
     mapState withoutFlushes (processTelnetCommand env b s)"
  "flushed (events (stateOf (processTelnetCommand env b s))) = flushed (events s)"
  by (simp_all add: processTelnetCommand_def quiet_will quiet_wont quiet_do quiet_dont
      sendAreYouThere_def quiet_raw split: list.splits)

lemma quiet_charsetRequestLoop:
  "charsetRequestLoop cs (withoutFlushes s) =
     (fst (charsetRequestLoop cs s), withoutFlushes (snd (charsetRequestLoop cs s)))"
  "flushed (events (snd (charsetRequestLoop cs s))) = flushed (events s)"
  by (induction cs arbitrary: s)
     (simp_all add: sendCharsetAccepted_def sendRawData_def withoutFlushes_def)

lemma quiet_subnegCharset:
  "subnegCharset payload (withoutFlushes s) = mapState withoutFlushes (subnegCharset payload s)"
  "flushed (events (stateOf (subnegCharset payload s))) = flushed (events s)"
  by (simp_all add: subnegCharset_def Let_def quiet_charsetRequestLoop sendCharsetRejected_def
      quiet_raw case_prod_beta)

lemma quiet_sendOptionStatus:
  "sendOptionStatus (withoutFlushes s) = withoutFlushes (sendOptionStatus s)"
  "flushed (events (sendOptionStatus s)) = flushed (events s)"
  by (simp_all add: sendOptionStatus_def sendOptionStatus_bytes_wf quiet_raw)

lemma quiet_subneg:
  "processTelnetSubnegotiation env payload (withoutFlushes s) =
     mapState withoutFlushes (processTelnetSubnegotiation env payload s)"
  "flushed (events (stateOf (processTelnetSubnegotiation env payload s))) = flushed (events s)"
  by (simp_all add: processTelnetSubnegotiation_def Let_def quiet_subnegCharset
      quiet_sendOptionStatus sendTerminalType_def quiet_raw quiet_hooks split: option.splits)

lemma unflush_emitCommand:
  "mapState unflush (emitCommand (processTelnetCommand env) s cl) =
     emitCommand (processTelnetCommand env) (withoutFlushes s) (flushed (events s) @ cl)"
  using quiet_command(2) [of env "commandBuffer s" s]
  by (cases "processTelnetCommand env (commandBuffer s) s")
     (simp_all add: emitCommand_def quiet_command(1) unflush_def)

lemma unflush_emitSubneg:
  "mapState unflush (emitSubneg (processTelnetSubnegotiation env) s cl) =
     emitSubneg (processTelnetSubnegotiation env) (withoutFlushes s) (flushed (events s) @ cl)"
  using quiet_subneg(2) [of env "subnegBuffer s" s]
  by (cases "processTelnetSubnegotiation env (subnegBuffer s) s")
     (simp_all add: emitSubneg_def quiet_subneg(1) unflush_def)

lemma unflush_step:
  "mapState unflush (onReadInternal2 env c sc) = onReadInternal2 env c (unflush sc)"
proof -
  obtain s cl where sc: "sc = (s, cl)" by (cases sc)
  have u: "unflush (s, cl) = (withoutFlushes s, flushed (events s) @ cl)"
    by (simp add: unflush_def)
  show ?thesis
    unfolding sc u
    by (cases "state s")
       (simp_all add: onReadInternal2_def byteFSM_def unflush_emitCommand unflush_emitSubneg,
        simp_all add: unflush_def)
qed

lemma unflush_pair [simp]:
  "unflush (s, cl) = (withoutFlushes s, flushed (events s) @ cl)"
  by (simp add: unflush_def)

lemma recvdGA_False_same: "\<not> recvdGA s \<Longrightarrow> s\<lparr>recvdGA := False\<rparr> = s"
  by (cases s) simp

lemma unflush_flushOnGA: "unflush (flushOnGA sc) = dropGA (unflush sc)"
  by (cases sc)
     (simp add: flushOnGA_def dropGA_def sendToMapper_def withoutFlushes_def recvdGA_False_same)

lemma unflush_dropGA: "unflush (dropGA sc) = dropGA (unflush sc)"
  by (cases sc) (simp add: dropGA_def)

lemma quiet_resetCompress:
  "withoutFlushes (resetCompress s) = resetCompress (withoutFlushes s)"
  "events (resetCompress s) = events s"
  "stream (resetCompress s) = stream s"
  by (simp_all add: resetCompress_def)

lemma quiet_initCompress:
  "initCompress env (withoutFlushes s) = mapState withoutFlushes (initCompress env s)"
  "events (stateOf (initCompress env s)) = events s"
  by (simp_all add: initCompress_def Let_def case_prod_beta)

lemma unflush_feedInflated:
  "mapState unflush (feedInflated env cs sc) = feedInflated_noGA env cs (unflush sc)"
proof (induction cs arbitrary: sc)
  case Nil
  show ?case by simp
next
  case (Cons c cs)
  show ?case
  proof (cases "onReadInternal2 env c sc")
    case (Return u sc1)
    with unflush_step [of env c sc]
    have "onReadInternal2 env c (unflush sc) = Return u (unflush sc1)"
      by simp
    with Return Cons.IH [of "flushOnGA sc1"] show ?thesis
      by (simp add: unflush_flushOnGA)
  next
    case (Throw e sc1)
    with unflush_step [of env c sc]
    have "onReadInternal2 env c (unflush sc) = Throw e (unflush sc1)"
      by simp
    with Throw show ?thesis by simp
  qed
qed

lemma unflush_inflateLoop:
  "map_option (mapState unflush) (inflateLoop n env input sc) =
     inflateLoop_noGA n env input (unflush sc)"
proof (induction n arbitrary: input sc)
  case 0
  show ?case by simp
next
  case (Suc n)
  obtain s cl where sc: "sc = (s, cl)" by (cases sc)
  let ?r = "z_inflate env (stream s) input"
  let ?s1 = "s\<lparr>stream := next_stream ?r\<rparr>"
  let ?out = "take CHUNK (produced ?r)"
  note fed = unflush_feedInflated [of env ?out "(?s1, cl)"]
  show ?case
  proof (cases "feedInflated env ?out (?s1, cl)")
    case (Return u sc1)
    with fed have "feedInflated_noGA env ?out
        ((withoutFlushes s)\<lparr>stream := next_stream ?r\<rparr>, flushed (events s) @ cl) =
        Return u (unflush sc1)"
      by simp
    with Return Suc.IH [of "drop (consumed ?r) input" sc1] show ?thesis
      by (simp add: sc Let_def quiet_resetCompress)
  next
    case (Throw e sc1)
    with fed have "feedInflated_noGA env ?out
        ((withoutFlushes s)\<lparr>stream := next_stream ?r\<rparr>, flushed (events s) @ cl) =
        Throw e (unflush sc1)"
      by simp
    with Throw show ?thesis
      by (simp add: sc Let_def quiet_resetCompress)
  qed
qed

lemma unflush_onReadInternalInflate:
  "map_option (mapState unflush) (onReadInternalInflate n env input sc) =
     onReadInternalInflate_noGA n env input (unflush sc)"
  by (simp add: onReadInternalInflate_def onReadInternalInflate_noGA_def unflush_inflateLoop)

lemma unflush_readLoop:
  "map_option (mapState unflush) (readLoop n env data sc) =
     readLoop_noGA n env data (unflush sc)"
proof (induction n env data sc rule: readLoop.induct)
  case (1 n env sc)
  show ?case by simp
next
  case (2 env c rest sc)
  show ?case by simp
next
  case (3 n env c rest sc)
  obtain s cl where sc: "sc = (s, cl)" by (cases sc)
  show ?case
  proof (cases "inflateTelnet s")
    case True
    note inf = unflush_onReadInternalInflate [of n env "c # rest" sc]
    show ?thesis
    proof (cases "onReadInternalInflate n env (c # rest) sc")
      case None
      with inf True show ?thesis by (simp add: sc)
    next
      case (Some o1)
      show ?thesis
      proof (cases o1)
        case (Return remaining sc1)
        with inf Some have "onReadInternalInflate_noGA n env (c # rest)
            (withoutFlushes s, flushed (events s) @ cl) = Some (Return remaining (unflush sc1))"
          by (simp add: sc)
        with "3.IH"(1) [OF sc [symmetric] True Some Return] True Some Return
        show ?thesis by (simp add: sc)
      next
        case (Throw e sc1)
        with inf Some have "onReadInternalInflate_noGA n env (c # rest)
            (withoutFlushes s, flushed (events s) @ cl) = Some (Throw e (unflush sc1))"
          by (simp add: sc)
        with True Some Throw show ?thesis by (simp add: sc)
      qed
    qed
  next
    case False
    note st = unflush_step [of env c sc]
    show ?thesis
    proof (cases "onReadInternal2 env c sc")
      case (Return u sc1)
      obtain s1 cl1 where sc1: "sc1 = (s1, cl1)" by (cases sc1)
      from st Return sc1
      have step: "onReadInternal2 env c (withoutFlushes s, flushed (events s) @ cl) =
          Return u (withoutFlushes s1, flushed (events s1) @ cl1)"
        by (simp add: sc)
      show ?thesis
      proof (cases "recvdCompress s1")
        case rc: True
        show ?thesis
        proof (cases "initCompress env s1")
          case r2: (Return u2 s2)
          from quiet_initCompress [of env s1] r2
          have i: "initCompress env (withoutFlushes s1) = Return u2 (withoutFlushes s2)"
            and e: "events s2 = events s1"
            by simp_all
          from "3.IH"(2) [OF sc [symmetric] False Return sc1 [symmetric] rc r2]
            False Return sc1 rc r2 step i e
          show ?thesis by (simp add: sc)
        next
          case (Throw e s2)
          from quiet_initCompress [of env s1] Throw
          have i: "initCompress env (withoutFlushes s1) = Throw e (withoutFlushes s2)"
            and e: "events s2 = events s1"
            by simp_all
          from False Return sc1 rc Throw step i e
          show ?thesis by (simp add: sc)
        qed
      next
        case nrc: False
        from "3.IH"(3) [OF sc [symmetric] False Return sc1 [symmetric] nrc]
          False Return sc1 nrc step unflush_flushOnGA [of sc1]
        show ?thesis by (simp add: sc)
      qed
    next
      case (Throw e sc1)
      with st have "onReadInternal2 env c (withoutFlushes s, flushed (events s) @ cl) =
          Throw e (unflush sc1)"
        by (simp add: sc)
      with False Throw show ?thesis by (simp add: sc)
    qed
  qed
qed
lemma unflush_feedInflated_noGA:
  "mapState unflush (feedInflated_noGA env cs sc) = feedInflated_noGA env cs (unflush sc)"
proof (induction cs arbitrary: sc)
  case Nil
  show ?case by simp
next
  case (Cons c cs)
  show ?case
  proof (cases "onReadInternal2 env c sc")
    case (Return u sc1)
    with unflush_step [of env c sc]
    have "onReadInternal2 env c (unflush sc) = Return u (unflush sc1)"
      by simp
    with Return Cons.IH [of "dropGA sc1"] show ?thesis
      by (simp add: unflush_dropGA)
  next
    case (Throw e sc1)
    with unflush_step [of env c sc]
    have "onReadInternal2 env c (unflush sc) = Throw e (unflush sc1)"
      by simp
    with Throw show ?thesis by simp
  qed
qed

lemma unflush_inflateLoop_noGA:
  "map_option (mapState unflush) (inflateLoop_noGA n env input sc) =
     inflateLoop_noGA n env input (unflush sc)"
proof (induction n arbitrary: input sc)
  case 0
  show ?case by simp
next
  case (Suc n)
  obtain s cl where sc: "sc = (s, cl)" by (cases sc)
  let ?r = "z_inflate env (stream s) input"
  let ?s1 = "s\<lparr>stream := next_stream ?r\<rparr>"
  let ?out = "take CHUNK (produced ?r)"
  note fed = unflush_feedInflated_noGA [of env ?out "(?s1, cl)"]
  show ?case
  proof (cases "feedInflated_noGA env ?out (?s1, cl)")
    case (Return u sc1)
    with fed have "feedInflated_noGA env ?out
        ((withoutFlushes s)\<lparr>stream := next_stream ?r\<rparr>, flushed (events s) @ cl) =
        Return u (unflush sc1)"
      by simp
    with Return Suc.IH [of "drop (consumed ?r) input" sc1] show ?thesis
      by (simp add: sc Let_def quiet_resetCompress)
  next
    case (Throw e sc1)
    with fed have "feedInflated_noGA env ?out
        ((withoutFlushes s)\<lparr>stream := next_stream ?r\<rparr>, flushed (events s) @ cl) =
        Throw e (unflush sc1)"
      by simp
    with Throw show ?thesis
      by (simp add: sc Let_def quiet_resetCompress)
  qed
qed

lemma unflush_onReadInternalInflate_noGA:
  "map_option (mapState unflush) (onReadInternalInflate_noGA n env input sc) =
     onReadInternalInflate_noGA n env input (unflush sc)"
  by (simp add: onReadInternalInflate_noGA_def unflush_inflateLoop_noGA)

lemma unflush_readLoop_noGA:
  "map_option (mapState unflush) (readLoop_noGA n env data sc) =
     readLoop_noGA n env data (unflush sc)"
proof (induction n env data sc rule: readLoop_noGA.induct)
  case (1 n env sc)
  show ?case by simp
next
  case (2 env c rest sc)
  show ?case by simp
next
  case (3 n env c rest sc)
  obtain s cl where sc: "sc = (s, cl)" by (cases sc)
  show ?case
  proof (cases "inflateTelnet s")
    case True
    note inf = unflush_onReadInternalInflate_noGA [of n env "c # rest" sc]
    show ?thesis
    proof (cases "onReadInternalInflate_noGA n env (c # rest) sc")
      case None
      with inf True show ?thesis by (simp add: sc)
    next
      case (Some o1)
      show ?thesis
      proof (cases o1)
        case (Return remaining sc1)
        with inf Some have "onReadInternalInflate_noGA n env (c # rest)
            (withoutFlushes s, flushed (events s) @ cl) = Some (Return remaining (unflush sc1))"
          by (simp add: sc)
        with "3.IH"(1) [OF sc [symmetric] True Some Return] True Some Return
        show ?thesis by (simp add: sc)
      next
        case (Throw e sc1)
        with inf Some have "onReadInternalInflate_noGA n env (c # rest)
            (withoutFlushes s, flushed (events s) @ cl) = Some (Throw e (unflush sc1))"
          by (simp add: sc)
        with True Some Throw show ?thesis by (simp add: sc)
      qed
    qed
  next
    case False
    note st = unflush_step [of env c sc]
    show ?thesis
    proof (cases "onReadInternal2 env c sc")
      case (Return u sc1)
      obtain s1 cl1 where sc1: "sc1 = (s1, cl1)" by (cases sc1)
      from st Return sc1
      have step: "onReadInternal2 env c (withoutFlushes s, flushed (events s) @ cl) =
          Return u (withoutFlushes s1, flushed (events s1) @ cl1)"
        by (simp add: sc)
      show ?thesis
      proof (cases "recvdCompress s1")
        case rc: True
        show ?thesis
        proof (cases "initCompress env s1")
          case r2: (Return u2 s2)
          from quiet_initCompress [of env s1] r2
          have i: "initCompress env (withoutFlushes s1) = Return u2 (withoutFlushes s2)"
            and e: "events s2 = events s1"
            by simp_all
          from "3.IH"(2) [OF sc [symmetric] False Return sc1 [symmetric] rc r2]
            False Return sc1 rc r2 step i e
          show ?thesis by (simp add: sc)
        next
          case (Throw e s2)
          from quiet_initCompress [of env s1] Throw
          have i: "initCompress env (withoutFlushes s1) = Throw e (withoutFlushes s2)"
            and e: "events s2 = events s1"
            by simp_all
          from False Return sc1 rc Throw step i e
          show ?thesis by (simp add: sc)
        qed
      next
        case nrc: False
        from "3.IH"(3) [OF sc [symmetric] False Return sc1 [symmetric] nrc]
          False Return sc1 nrc step unflush_dropGA [of sc1]
        show ?thesis by (simp add: sc)
      qed
    next
      case (Throw e sc1)
      with st have "onReadInternal2 env c (withoutFlushes s, flushed (events s) @ cl) =
          Throw e (unflush sc1)"
        by (simp add: sc)
      with False Throw show ?thesis by (simp add: sc)
    qed
  qed
qed

lemma readLoops_agree:
  "map_option (mapState unflush) (readLoop n env data sc) =
     map_option (mapState unflush) (readLoop_noGA n env data sc)"
  by (simp add: unflush_readLoop unflush_readLoop_noGA)

lemma withoutFlushes_sendToMapper:
  "withoutFlushes (sendToMapper d g s) = withoutFlushes s"
  "flushed (events (sendToMapper d g s)) = flushed (events s) @ d"
  by (simp_all add: sendToMapper_def withoutFlushes_def)

lemma final_flush:
  "withoutFlushes (if cl \<noteq> [] then sendToMapper cl g s else s) = withoutFlushes s"
  "flushed (events (if cl \<noteq> [] then sendToMapper cl g s else s)) = flushed (events s) @ cl"
  by (simp_all add: withoutFlushes_sendToMapper)

text \<open>
  C3, as the code has it: the engine and the engine with GA detection disabled, fed the
  same bytes in the same state, end alike: both run out of fuel, or both throw the same
  error, or both return, in states that differ in the recorded flushes only. When they
  return, that is when \<open>onReadInternal\<close> gets to the end of its input, the flushes the
  host has received from the engine (those on a go-ahead and the one at the end),
  concatenated in order, are the bytes it has received from the engine without GA
  detection: a go-ahead only segments the clean bytes. When the read loop stops in
  an abort or an exception the clean-data buffer is lost with it; up to there the bytes
  flushed followed by the bytes in the buffer are the same in both.
\<close>

theorem go_ahead_only_segments:
  "map_option (mapState withoutFlushes) (onReadInternal n env data s) =
     map_option (mapState withoutFlushes) (onReadInternal_noGA n env data s) \<and>
   (onReadInternal n env data s = Some (Return () s1) \<and>
    onReadInternal_noGA n env data s = Some (Return () s2) \<longrightarrow>
      flushed (events s1) = flushed (events s2)) \<and>
   map_option (mapState unflush) (readLoop n env data (s, [])) =
     map_option (mapState unflush) (readLoop_noGA n env data (s, []))"
proof (cases "data = []")
  case True
  then show ?thesis by (auto simp add: onReadInternal_def onReadInternal_noGA_def)
next
  case False
  note agree = readLoops_agree [of n env data "(s, [])"]
  show ?thesis
  proof (cases "readLoop n env data (s, [])")
    case None
    with agree have "readLoop_noGA n env data (s, []) = None" by simp
    with None False show ?thesis
      by (simp add: onReadInternal_def onReadInternal_noGA_def)
  next
    case (Some o1)
    with agree obtain o2 where o2: "readLoop_noGA n env data (s, []) = Some o2"
      and u: "mapState unflush o1 = mapState unflush o2"
      by (cases "readLoop_noGA n env data (s, [])") auto
    show ?thesis
    proof (cases o1)
      case (Return u1 sc1)
      obtain t1 cl1 where sc1: "sc1 = (t1, cl1)" by (cases sc1)
      from u Return obtain sc2 where r2: "o2 = Return u1 sc2" and us: "unflush sc1 = unflush sc2"
        by (cases o2) auto
      obtain t2 cl2 where sc2: "sc2 = (t2, cl2)" by (cases sc2)
      from us sc1 sc2 have w: "withoutFlushes t1 = withoutFlushes t2"
        and f: "flushed (events t1) @ cl1 = flushed (events t2) @ cl2"
        by simp_all
      from False Some o2 Return r2 sc1 sc2 w f agree show ?thesis
        by (auto simp add: onReadInternal_def onReadInternal_noGA_def withoutFlushes_sendToMapper)
    next
      case (Throw e sc1)
      obtain t1 cl1 where sc1: "sc1 = (t1, cl1)" by (cases sc1)
      from u Throw obtain sc2 where r2: "o2 = Throw e sc2" and us: "unflush sc1 = unflush sc2"
        by (cases o2) auto
      obtain t2 cl2 where sc2: "sc2 = (t2, cl2)" by (cases sc2)
      from us sc1 sc2 have w: "withoutFlushes t1 = withoutFlushes t2"
        by simp
      from False Some o2 Throw r2 sc1 sc2 w agree show ?thesis
        by (simp add: onReadInternal_def onReadInternal_noGA_def)
    qed
  qed
qed

lemma readLoop_noGA_numeral:
  "readLoop_noGA (numeral k) env (c # rest) sc =
     (case sc of (s, cleanData) \<Rightarrow>
        if inflateTelnet s then
          (case onReadInternalInflate_noGA (pred_numeral k) env (c # rest) sc of
             None \<Rightarrow> None
           | Some (Throw e sc1) \<Rightarrow> Some (Throw e sc1)
           | Some (Return remaining sc1) \<Rightarrow>
               readLoop_noGA (pred_numeral k) env
                 (drop (length (c # rest) - remaining) (c # rest)) sc1)
        else
          (case onReadInternal2 env c sc of
             Throw e sc1 \<Rightarrow> Some (Throw e sc1)
           | Return _ sc1 \<Rightarrow>
               (case sc1 of (s1, cleanData1) \<Rightarrow>
                  if recvdCompress s1 then
                    (case initCompress env s1 of
                       Throw e s2 \<Rightarrow> Some (Throw e (s2, cleanData1))
                     | Return _ s2 \<Rightarrow>
                         readLoop_noGA (pred_numeral k) env rest
                           (s2\<lparr>recvdCompress := False\<rparr>, cleanData1))
                  else readLoop_noGA (pred_numeral k) env rest (dropGA sc1))))"
  unfolding numeral_eq_Suc by (rule readLoop_noGA.simps(3))

lemma hi_bye_with_GA:
  "onReadInternal 7 env0 [104, 105, 255, 249, 98, 121, 101] engine0 =
     Some (Return ()
       (engine0\<lparr>events := [SendToMapper [104, 105] True, SendToMapper [98, 121, 101] False]\<rparr>))"
  by (simp add: readLoop_numeral engine0_fields fsm_defs processTelnetCommand_def sender_defs)

lemma hi_bye_without_GA:
  "onReadInternal_noGA 7 env0 [104, 105, 255, 249, 98, 121, 101] engine0 =
     Some (Return ()
       (engine0\<lparr>events := [SendToMapper [104, 105, 98, 121, 101] False]\<rparr>))"
  by (simp add: readLoop_noGA_numeral engine0_fields onReadInternal_noGA_def onReadInternal2_def
      byteFSM_def emitCommand_def dropGA_def processTelnetCommand_def sender_defs)

theorem go_ahead_only_segments_witness:
  "onReadInternal 7 env0 [104, 105, 255, 249, 98, 121, 101] engine0 =
     Some (Return ()
       (engine0\<lparr>events := [SendToMapper [104, 105] True, SendToMapper [98, 121, 101] False]\<rparr>)) \<and>
   onReadInternal_noGA 7 env0 [104, 105, 255, 249, 98, 121, 101] engine0 =
     Some (Return ()
       (engine0\<lparr>events := [SendToMapper [104, 105, 98, 121, 101] False]\<rparr>)) \<and>
   flushed (events
       (engine0\<lparr>events := [SendToMapper [104, 105] True, SendToMapper [98, 121, 101] False]\<rparr>)) =
     flushed (events (engine0\<lparr>events := [SendToMapper [104, 105, 98, 121, 101] False]\<rparr>))"
  using go_ahead_only_segments [of 7 env0 "[104, 105, 255, 249, 98, 121, 101]" engine0
      "engine0\<lparr>events := [SendToMapper [104, 105] True, SendToMapper [98, 121, 101] False]\<rparr>"
      "engine0\<lparr>events := [SendToMapper [104, 105, 98, 121, 101] False]\<rparr>"]
    hi_bye_with_GA hi_bye_without_GA
  by simp

text \<open>
  The claim C3 speaks of every inbound stream. The stream \<open>IAC DO CHARSET\<close>, \<open>h\<close>,
  \<open>IAC GA\<close>, \<open>b\<close>, \<open>IAC SB CHARSET TTABLE_IS IAC SE\<close> ends in \<open>abort()\<close>: the engine has
  flushed \<open>h\<close> and loses \<open>b\<close>; without GA detection nothing is flushed and the buffer
  \<open>hb\<close> is lost.
\<close>

theorem abort_loses_clean_bytes:
  "onReadInternal 13 env0
       [255, 253, 42, 104, 255, 249, 98, 255, 250, 42, 4, 255, 240] engine0 =
     Some (Throw Aborted
       (engine0\<lparr>myOptionState := (myOptionState engine0)(OPT_CHARSET := True),
                announcedState := (announcedState engine0)(OPT_CHARSET := True),
                commandBuffer := [255], subnegBuffer := [42, 4],
                events := [SendRawData [255, 251, 42],
                           SendRawData [255, 250, 42, 1, 59, 76, 65, 84, 73, 78, 49,
                                        59, 85, 84, 70, 45, 56, 255, 240],
                           SendToMapper [104] True]\<rparr>)) \<and>
   onReadInternal_noGA 13 env0
       [255, 253, 42, 104, 255, 249, 98, 255, 250, 42, 4, 255, 240] engine0 =
     Some (Throw Aborted
       (engine0\<lparr>myOptionState := (myOptionState engine0)(OPT_CHARSET := True),
                announcedState := (announcedState engine0)(OPT_CHARSET := True),
                commandBuffer := [255], subnegBuffer := [42, 4],
                events := [SendRawData [255, 251, 42],
                           SendRawData [255, 250, 42, 1, 59, 76, 65, 84, 73, 78, 49,
                                        59, 85, 84, 70, 45, 56, 255, 240]]\<rparr>)) \<and>
   readLoop_noGA 13 env0
       [255, 253, 42, 104, 255, 249, 98, 255, 250, 42, 4, 255, 240] (engine0, []) =
     Some (Throw Aborted
       (engine0\<lparr>myOptionState := (myOptionState engine0)(OPT_CHARSET := True),
                announcedState := (announcedState engine0)(OPT_CHARSET := True),
                commandBuffer := [255], subnegBuffer := [42, 4],
                events := [SendRawData [255, 251, 42],
                           SendRawData [255, 250, 42, 1, 59, 76, 65, 84, 73, 78, 49,
                                        59, 85, 84, 70, 45, 56, 255, 240]]\<rparr>, [104, 98]))"
  by (simp add: readLoop_numeral readLoop_noGA_numeral engine0_fields fsm_defs
      onReadInternal_noGA_def dropGA_def processTelnetCommand_def commandDo_def doReply_def
      doFollowUp_def supportedByDo_def processTelnetSubnegotiation_def subnegCharset_def
      byteAt_def sender_defs formatter_defs latin1Name_def utf8Name_def)

end
